theory Spec2Isabelle
  imports Main
begin

section \<open>Text\<close>

text \<open>
  Python strings are modelled as \<^typ>\<open>string\<close>, a character being a code point below
  256: the character classes below are those of Python's \<^verbatim>\<open>str.strip\<close>, \<^verbatim>\<open>\d\<close> and
  \<^verbatim>\<open>str.lower\<close> on these code points.
\<close>

definition is_space :: "char \<Rightarrow> bool" where
  "is_space c = (c \<in> set [CHR 0x09, CHR 0x0A, CHR 0x0B, CHR 0x0C, CHR 0x0D,
                            CHR 0x1C, CHR 0x1D, CHR 0x1E, CHR 0x1F, CHR 0x20,
                            CHR 0x85, CHR 0xA0])"

definition is_digit :: "char \<Rightarrow> bool" where
  "is_digit c = (c \<in> set ''0123456789'')"

text \<open>
  The upper-case letters below 256 are \<^verbatim>\<open>A\<close> to \<^verbatim>\<open>Z\<close> and the code points \<open>0xC0\<close> to
  \<open>0xDE\<close> without \<open>0xD7\<close> (the multiplication sign); each has its lower-case letter 32
  places further.
\<close>

definition lower_char :: "char \<Rightarrow> char" where
  "lower_char c =
     (let n = (of_char c :: nat)
      in if (65 \<le> n \<and> n \<le> 90) \<or> (192 \<le> n \<and> n \<le> 222 \<and> n \<noteq> 215)
         then char_of (n + 32) else c)"

text \<open>\<^verbatim>\<open>s.lower()\<close>\<close>

definition lower :: "string \<Rightarrow> string" where
  "lower s = map lower_char s"

text \<open>\<^verbatim>\<open>s.strip()\<close>\<close>

definition strip :: "string \<Rightarrow> string" where
  "strip s = rev (dropWhile is_space (rev (dropWhile is_space s)))"

text \<open>\<^verbatim>\<open>s.startswith(p)\<close>\<close>

definition startswith :: "string \<Rightarrow> string \<Rightarrow> bool" where
  "startswith s p = (take (length p) s = p)"

text \<open>
  \<^verbatim>\<open>re.search(r"\d+", s)\<close>: the leftmost run of digits, taken as long as it goes
  (\<^verbatim>\<open>+\<close> is greedy); \<open>None\<close> when \<open>s\<close> has no digit. The result is what
  \<^verbatim>\<open>.group()\<close> gives.
\<close>

definition re_search_digits :: "string \<Rightarrow> string option" where
  "re_search_digits s =
     (let r = dropWhile (\<lambda>c. \<not> is_digit c) s
      in if r = [] then None else Some (takeWhile is_digit r))"

text \<open>Substring search, as \<^verbatim>\<open>re.search\<close> does it for a literal pattern.\<close>

fun contains :: "string \<Rightarrow> string \<Rightarrow> bool" where
  "contains p [] = (p = [])"
| "contains p (c # s) = (startswith (c # s) p \<or> contains p s)"

text \<open>The decimal digits of a natural number, as \<^verbatim>\<open>str(n)\<close> and the format specifications write them.\<close>

definition digit_char :: "nat \<Rightarrow> char" where
  "digit_char d = ''0123456789'' ! d"

fun digits :: "nat \<Rightarrow> string" where
  "digits n = (if n < 10 then [digit_char n] else digits (n div 10) @ [digit_char (n mod 10)])"

declare digits.simps [simp del]

section \<open>Exceptions\<close>

text \<open>
  Every exception of the program derives from \<^verbatim>\<open>Exception\<close>. \<open>NoCredentialsError\<close>,
  \<open>KeyError\<close>, \<open>IndexError\<close> and \<open>ValueError\<close> are the classes the program names or that
  its own statements and the functions \<^verbatim>\<open>int\<close>, \<^verbatim>\<open>urljoin\<close> and \<^verbatim>\<open>urlparse\<close> raise;
  \<open>OtherException msg\<close> is any other one. The strings are what \<^verbatim>\<open>str(e)\<close> gives.
\<close>

datatype exn = NoCredentialsError | KeyError string | IndexError | ValueError string
  | OtherException string

fun exn_str :: "exn \<Rightarrow> string" where
  "exn_str NoCredentialsError = ''Unable to locate credentials''"
| "exn_str (KeyError k) = [CHR 0x27] @ k @ [CHR 0x27]"
| "exn_str IndexError = ''list index out of range''"
| "exn_str (ValueError msg) = msg"
| "exn_str (OtherException msg) = msg"

section \<open>Integers from digits\<close>

definition digit_val :: "char \<Rightarrow> int" where
  "digit_val c = of_char c - 48"

definition decimal :: "string \<Rightarrow> int" where
  "decimal ds = foldl (\<lambda>a c. 10 * a + digit_val c) 0 ds"

text \<open>
  \<^verbatim>\<open>int(ds)\<close> on a string of decimal digits: an unbounded integer, and \<open>ValueError\<close> when
  the string has more digits than the interpreter's limit for the conversion, 4300
  unless the limit has been set otherwise.
\<close>

definition int_max_str_digits :: nat where
  "int_max_str_digits = 4300"

definition py_int :: "string \<Rightarrow> exn + int" where
  "py_int ds =
     (if int_max_str_digits < length ds
      then Inl (ValueError
                  (''Exceeds the limit (4300 digits) for integer string conversion: value has ''
                   @ digits (length ds)
                   @ '' digits; use sys.set_int_max_str_digits() to increase the limit''))
      else Inr (decimal ds))"

section \<open>Parsed documents\<close>

text \<open>
  What \<^verbatim>\<open>BeautifulSoup(response.text, "html.parser")\<close> returns: a tree of text nodes and
  elements, an element with its tag name, its attribute dictionary (an association list
  read with \<^const>\<open>map_of\<close>) and its children in document order. The document itself is
  the root element. The text nodes are the strings that \<^verbatim>\<open>get_text\<close> reads; comments and
  the like are not in the tree. An attribute value is the string of the document, also for
  \<^verbatim>\<open>class\<close>, which the parser keeps as the list of its words: the patterns searched in
  it here have no white space, so they are found in one of the words exactly when they
  are found in the string.
\<close>

datatype node = Text string | Elem string "(string \<times> string) list" "node list"

text \<open>\<^verbatim>\<open>tag.descendants\<close>: every node below the element, in document order.\<close>

fun descendants :: "node \<Rightarrow> node list" where
  "descendants (Text s) = []"
| "descendants (Elem t as cs) = concat (map (\<lambda>c. c # descendants c) cs)"

fun has_name :: "string \<Rightarrow> node \<Rightarrow> bool" where
  "has_name nm (Text s) = False"
| "has_name nm (Elem t as cs) = (t = nm)"

text \<open>\<^verbatim>\<open>tag.get(k)\<close>\<close>

fun get_attr :: "node \<Rightarrow> string \<Rightarrow> string option" where
  "get_attr (Text s) k = None"
| "get_attr (Elem t as cs) k = map_of as k"

text \<open>
  \<^verbatim>\<open>tag.find_all(nm, ...)\<close> and \<^verbatim>\<open>tag.find(nm, ...)\<close>, the attribute filter given as a
  predicate on the candidate element.
\<close>

definition find_all :: "string \<Rightarrow> (node \<Rightarrow> bool) \<Rightarrow> node \<Rightarrow> node list" where
  "find_all nm p e = filter (\<lambda>n. has_name nm n \<and> p n) (descendants e)"

definition find_elem :: "string \<Rightarrow> (node \<Rightarrow> bool) \<Rightarrow> node \<Rightarrow> node option" where
  "find_elem nm p e = (case find_all nm p e of [] \<Rightarrow> None | n # _ \<Rightarrow> Some n)"

text \<open>An attribute filter \<^verbatim>\<open>k=True\<close>: the attribute is there, whatever its value.\<close>

definition attr_present :: "string \<Rightarrow> node \<Rightarrow> bool" where
  "attr_present k n = (get_attr n k \<noteq> None)"

text \<open>
  An attribute filter \<^verbatim>\<open>k=re.compile(...)\<close>: the attribute is there and the pattern is
  found in it.
\<close>

definition attr_matches :: "string \<Rightarrow> (string \<Rightarrow> bool) \<Rightarrow> node \<Rightarrow> bool" where
  "attr_matches k re n = (case get_attr n k of None \<Rightarrow> False | Some v \<Rightarrow> re v)"

definition any_elem :: "node \<Rightarrow> bool" where
  "any_elem n = True"

text \<open>
  \<^verbatim>\<open>tag.get_text(strip=True)\<close>: the text nodes below the element, each stripped, the
  empty ones dropped, joined.
\<close>

fun text_of :: "node \<Rightarrow> string list" where
  "text_of (Text s) = [s]"
| "text_of (Elem t as cs) = []"

definition get_text_strip :: "node \<Rightarrow> string" where
  "get_text_strip e =
     concat (filter (\<lambda>s. s \<noteq> []) (map strip (concat (map text_of (descendants e)))))"

section \<open>WebScraper\<close>

record CreatureData =
  index :: int
  name :: string
  url :: string
  types :: "string list option"
  image_url :: "string option"

text \<open>
  \<^verbatim>\<open>WebScraper.extract_creature_data\<close>. \<open>urljoin\<close> is \<^verbatim>\<open>urllib.parse.urljoin\<close>, taken as a
  parameter: it gives \<open>Inr\<close> the joined URL, or \<open>Inl msg\<close> when it raises
  \<^verbatim>\<open>ValueError(msg)\<close>. The arguments of \<^verbatim>\<open>CreatureData(...)\<close> are evaluated in their order:
  \<^verbatim>\<open>int\<close> first, then \<^verbatim>\<open>link_element["href"]\<close>, which raises \<open>KeyError\<close> on an element
  without the attribute, then \<^verbatim>\<open>urljoin\<close>.
\<close>

definition extract_creature_data ::
  "(string \<Rightarrow> string \<Rightarrow> string + string) \<Rightarrow> string \<Rightarrow> node \<Rightarrow> exn + CreatureData option" where
  "extract_creature_data urljoin base_url element =
     (let cells = find_all ''td'' any_elem element in
      if length cells < 3 then Inr None
      else case re_search_digits (get_text_strip (cells ! 0)) of
        None \<Rightarrow> Inr None
      | Some index_match \<Rightarrow>
          (case find_elem ''a'' (attr_present ''href'') element of
             None \<Rightarrow> Inr None
           | Some link_element \<Rightarrow>
               (case py_int index_match of
                  Inl e \<Rightarrow> Inl e
                | Inr i \<Rightarrow>
                    (case get_attr link_element ''href'' of
                       None \<Rightarrow> Inl (KeyError ''href'')
                     | Some href \<Rightarrow>
                         (case urljoin base_url href of
                            Inl msg \<Rightarrow> Inl (ValueError msg)
                          | Inr u \<Rightarrow>
                              Inr (Some \<lparr>index = i,
                                         name = get_text_strip link_element,
                                         url = u,
                                         types = None,
                                         image_url = None\<rparr>))))))"

section \<open>Paths and formatting\<close>

text \<open>\<^verbatim>\<open>p.rfind(c)\<close>: the last position of \<open>c\<close> in \<open>p\<close>, \<open>-1\<close> when there is none.\<close>

definition rfind :: "string \<Rightarrow> char \<Rightarrow> int" where
  "rfind p c = (case filter (\<lambda>i. p ! i = c) (rev [0..<length p]) of
                  [] \<Rightarrow> - 1
                | i # _ \<Rightarrow> int i)"

text \<open>
  \<^verbatim>\<open>os.path.splitext(p)\<close> (posixpath): the extension starts at the last dot, when that dot
  comes after the last slash and some character between the two is not a dot.
\<close>

definition splitext :: "string \<Rightarrow> string \<times> string" where
  "splitext p =
     (let sepIndex = rfind p CHR ''/'';
          dotIndex = rfind p CHR ''.''
      in if dotIndex > sepIndex
            \<and> (\<exists>i \<in> set [nat (sepIndex + 1)..<nat dotIndex]. p ! i \<noteq> CHR ''.'')
         then (take (nat dotIndex) p, drop (nat dotIndex) p)
         else (p, []))"

text \<open>\<^verbatim>\<open>f"{i:04d}"\<close>: decimal, zero-padded to four characters, the sign counted.\<close>

definition zfill :: "nat \<Rightarrow> string \<Rightarrow> string" where
  "zfill w s = replicate (w - length s) CHR ''0'' @ s"

definition format_04d :: "int \<Rightarrow> string" where
  "format_04d i = (if i < 0 then CHR ''-'' # zfill 3 (digits (nat (- i)))
                   else zfill 4 (digits (nat i)))"

section \<open>Effects\<close>

type_synonym bytes = "char list"

record put_request =
  Bucket :: string
  Key :: string
  Body :: bytes
  ACL :: string
  ContentType :: string

datatype level = INFO | WARNING | ERROR

text \<open>
  What a run does to the outside, in order: a log line, a page fetched through
  \<^verbatim>\<open>fetch_page\<close>, an image requested with \<^verbatim>\<open>requests.get\<close>, a \<^verbatim>\<open>put_object\<close> call, a
  \<^verbatim>\<open>time.sleep(self.scraper.delay)\<close>.
\<close>

datatype event = Log level string | PageGet string | ImageGet string
  | PutObject put_request | Sleep

text \<open>
  The outside world, each call answering by its arguments: \<open>fetch_page\<close> is
  \<^verbatim>\<open>WebScraper.fetch_page\<close> (the GET, \<^verbatim>\<open>raise_for_status\<close> and the parse), \<open>http_get\<close> is
  \<^verbatim>\<open>requests.get(url, headers=headers).content\<close>, \<open>put_object\<close> is the storage client's;
  each gives \<open>Inl\<close> the exception it raises. \<open>urljoin\<close> is \<^verbatim>\<open>urllib.parse.urljoin\<close> and
  \<open>url_path\<close> is \<^verbatim>\<open>urlparse(url).path\<close>: each gives \<open>Inr\<close> its result, or \<open>Inl msg\<close> when
  it raises \<^verbatim>\<open>ValueError(msg)\<close>, as \<^verbatim>\<open>urllib.parse\<close> does on a URL it rejects.
\<close>

record env =
  fetch_page :: "string \<Rightarrow> exn + node"
  http_get :: "string \<Rightarrow> exn + bytes"
  put_object :: "put_request \<Rightarrow> exn + unit"
  urljoin :: "string \<Rightarrow> string \<Rightarrow> string + string"
  url_path :: "string \<Rightarrow> string + string"

section \<open>S3Uploader\<close>

definition content_types :: "(string \<times> string) list" where
  "content_types = [(''.jpg'', ''image/jpeg''), (''.jpeg'', ''image/jpeg''),
                    (''.png'', ''image/png''), (''.gif'', ''image/gif'')]"

definition content_type_of :: "string \<Rightarrow> string" where
  "content_type_of filename =
     (let ext = lower (snd (splitext filename))
      in case map_of content_types ext of Some t \<Rightarrow> t | None \<Rightarrow> ''image/png'')"

definition put_request_of :: "string \<Rightarrow> bytes \<Rightarrow> string \<Rightarrow> string \<Rightarrow> put_request" where
  "put_request_of bucket_name image_data filename prefix =
     \<lparr>Bucket = bucket_name, Key = prefix @ filename, Body = image_data,
      ACL = ''public-read'', ContentType = content_type_of filename\<rparr>"

text \<open>
  \<^verbatim>\<open>S3Uploader.upload_image\<close>: what the call gives back (\<open>Inl\<close> an exception that leaves
  it), and the events of the call.
\<close>

definition upload_image ::
  "(put_request \<Rightarrow> exn + unit) \<Rightarrow> string \<Rightarrow> bytes \<Rightarrow> string \<Rightarrow> string
     \<Rightarrow> (exn + string option) \<times> event list" where
  "upload_image put bucket_name image_data filename prefix =
     (let s3_key = prefix @ filename;
          req = put_request_of bucket_name image_data filename prefix
      in case put req of
           Inr _ \<Rightarrow>
             (Inr (Some (''https://'' @ bucket_name @ ''.s3.amazonaws.com/'' @ s3_key)),
              [PutObject req])
         | Inl NoCredentialsError \<Rightarrow>
             (Inr None, [PutObject req, Log ERROR ''AWS credentials not found!''])
         | Inl e \<Rightarrow>
             (Inr None,
              [PutObject req,
               Log ERROR (''Failed to upload '' @ filename @ '' to S3: '' @ exn_str e)]))"

section \<open>DataCollector\<close>

definition base_url :: string where
  "base_url = ''https://bulbapedia.bulbagarden.net''"

definition list_url :: string where
  "list_url = base_url @ ''/wiki/List_of_Pok%C3%A9mon_by_National_Pok%C3%A9dex_number''"

text \<open>\<^verbatim>\<open>re.compile(r"infobox|roundy")\<close> and \<^verbatim>\<open>re.compile(r"(roundy|sortable)")\<close>, searched.\<close>

definition re_infobox_roundy :: "string \<Rightarrow> bool" where
  "re_infobox_roundy v = (contains ''infobox'' v \<or> contains ''roundy'' v)"

definition re_roundy_sortable :: "string \<Rightarrow> bool" where
  "re_roundy_sortable v = (contains ''roundy'' v \<or> contains ''sortable'' v)"

text \<open>
  \<^verbatim>\<open>re.compile("/wiki/.*_type")\<close>, searched: \<^verbatim>\<open>/wiki/\<close> somewhere, and \<^verbatim>\<open>_type\<close> after it
  before any line feed (\<^verbatim>\<open>.\<close> matches every character but the line feed).
\<close>

fun re_wiki_type :: "string \<Rightarrow> bool" where
  "re_wiki_type [] = False"
| "re_wiki_type (c # s) =
     ((startswith (c # s) ''/wiki/''
        \<and> contains ''_type'' (takeWhile (\<lambda>x. x \<noteq> CHR 0x0A) (drop 6 (c # s))))
      \<or> re_wiki_type s)"

text \<open>\<^verbatim>\<open>DataCollector.find_creature_image_and_types\<close>\<close>

definition find_creature_image_and_types ::
  "(string \<Rightarrow> exn + node) \<Rightarrow> string \<Rightarrow> exn + (string option \<times> string list)" where
  "find_creature_image_and_types fetch u =
     (case fetch u of
        Inl e \<Rightarrow> Inr (None, [''unknown''])
      | Inr soup \<Rightarrow>
          (case find_elem ''table'' (attr_matches ''class'' re_infobox_roundy) soup of
             None \<Rightarrow> Inr (None, [])
           | Some info_table \<Rightarrow>
               (let img_tag = find_elem ''img'' any_elem info_table;
                    image_url =
                      (case img_tag of
                         None \<Rightarrow> None
                       | Some img \<Rightarrow>
                           (case get_attr img ''src'' of
                              None \<Rightarrow> None
                            | Some src \<Rightarrow>
                                if src = [] then None
                                else Some (if startswith src ''//'' then ''https:'' @ src
                                           else src)));
                    type_cells = find_all ''a'' (attr_matches ''href'' re_wiki_type) info_table;
                    types = map (\<lambda>t. lower (get_text_strip t))
                              (filter (\<lambda>t. get_text_strip t \<noteq> []) type_cells)
                in Inr (image_url, if types = [] then [''unknown''] else types))))"

text \<open>
  The state of a run of \<^verbatim>\<open>collect_data\<close>: the local \<open>count\<close>, the events so far, and
  \<open>visited\<close>, a ghost counter of the rows whose loop body was entered (the rows that
  passed the limit check). A call that raises gives \<open>Inl\<close> the exception with the state
  reached when it was raised.
\<close>

record run_state =
  count :: int
  trace :: "event list"
  visited :: nat

definition init_state :: run_state where
  "init_state = \<lparr>count = 0, trace = [], visited = 0\<rparr>"

definition emit :: "event list \<Rightarrow> run_state \<Rightarrow> run_state" where
  "emit evs s = s\<lparr>trace := trace s @ evs\<rparr>"

text \<open>
  The body of the inner loop of \<^verbatim>\<open>collect_data\<close>, from \<^verbatim>\<open>creature = ...\<close> to the
  \<^verbatim>\<open>time.sleep\<close>; a \<^verbatim>\<open>continue\<close> is a return from it. Outside the \<^verbatim>\<open>try\<close> stand the call
  of \<^verbatim>\<open>extract_creature_data\<close>, \<^verbatim>\<open>types[0]\<close> and \<^verbatim>\<open>urlparse(image_url)\<close>: what they raise
  leaves the body.
\<close>

definition row_body ::
  "env \<Rightarrow> string \<Rightarrow> node \<Rightarrow> run_state \<Rightarrow> exn \<times> run_state + run_state" where
  "row_body E bucket_name row s =
     (case extract_creature_data (urljoin E) base_url row of
        Inl e \<Rightarrow> Inl (e, s)
      | Inr None \<Rightarrow> Inr s
      | Inr (Some creature) \<Rightarrow>
          (let s1 = emit [Log INFO (''Processing #'' @ format_04d (index creature) @ '' ''
                                     @ name creature),
                          PageGet (url creature)] s
           in case find_creature_image_and_types (fetch_page E) (url creature) of
                Inl e \<Rightarrow> Inl (e, s1)
              | Inr (img, tys) \<Rightarrow>
                  (case (if img = Some [] then None else img) of
                     None \<Rightarrow> Inr (emit [Log WARNING (''No image found for '' @ name creature)] s1)
                   | Some img_url \<Rightarrow>
                       (case tys of
                          [] \<Rightarrow> Inl (IndexError, s1)
                        | t0 # _ \<Rightarrow>
                            (case url_path E img_url of
                               Inl msg \<Rightarrow> Inl (ValueError msg, s1)
                             | Inr path \<Rightarrow>
                                 (let prefix = ''images/'' @ t0 @ ''/'';
                                      ext0 = snd (splitext path);
                                      ext = (if ext0 = [] then ''.png'' else ext0);
                                      filename = format_04d (index creature) @ ''_''
                                                 @ name creature @ ext;
                                      s2 = emit [ImageGet img_url] s1;
                                      s3 =
                                        (case http_get E img_url of
                                           Inl e \<Rightarrow>
                                             emit [Log ERROR (''Failed to download ''
                                                     @ img_url @ '': '' @ exn_str e)] s2
                                         | Inr image_data \<Rightarrow>
                                             (case upload_image (put_object E) bucket_name
                                                     image_data filename prefix of
                                                (Inl e, evs) \<Rightarrow>
                                                  emit [Log ERROR (''Failed to download ''
                                                          @ img_url @ '': '' @ exn_str e)]
                                                    (emit evs s2)
                                              | (Inr None, evs) \<Rightarrow> emit evs s2
                                              | (Inr (Some s3_url), evs) \<Rightarrow>
                                                  if s3_url = [] then emit evs s2
                                                  else (emit [Log INFO (''Uploaded to S3: ''
                                                                        @ s3_url)]
                                                          (emit evs s2))
                                                       \<lparr>count := count s2 + 1\<rparr>))
                                  in Inr (emit [Sleep] s3)))))))"

text \<open>
  The inner loop over the rows of one table. The flag tells whether the \<^verbatim>\<open>return\<close> at
  the limit check was taken.
\<close>

fun rows_loop ::
  "env \<Rightarrow> string \<Rightarrow> int \<Rightarrow> node list \<Rightarrow> run_state
     \<Rightarrow> exn \<times> run_state + bool \<times> run_state" where
  "rows_loop E bucket_name limit [] s = Inr (False, s)"
| "rows_loop E bucket_name limit (row # rows) s =
     (if count s \<ge> limit then Inr (True, emit [Log INFO ''Limite atteinte.''] s)
      else case row_body E bucket_name row (s\<lparr>visited := Suc (visited s)\<rparr>) of
             Inl x \<Rightarrow> Inl x
           | Inr s' \<Rightarrow> rows_loop E bucket_name limit rows s')"

text \<open>The outer loop over the selected tables.\<close>

fun tables_loop ::
  "env \<Rightarrow> string \<Rightarrow> int \<Rightarrow> node list \<Rightarrow> run_state \<Rightarrow> exn \<times> run_state + run_state" where
  "tables_loop E bucket_name limit [] s = Inr s"
| "tables_loop E bucket_name limit (table # tables) s =
     (case rows_loop E bucket_name limit (find_all ''tr'' any_elem table) s of
        Inl x \<Rightarrow> Inl x
      | Inr (True, s') \<Rightarrow> Inr s'
      | Inr (False, s') \<Rightarrow> tables_loop E bucket_name limit tables s')"

text \<open>\<^verbatim>\<open>DataCollector.collect_data\<close>\<close>

definition collect_data :: "env \<Rightarrow> string \<Rightarrow> int \<Rightarrow> exn \<times> run_state + run_state" where
  "collect_data E bucket_name limit =
     (case fetch_page E list_url of
        Inl e \<Rightarrow> Inl (e, init_state)
      | Inr soup \<Rightarrow>
          tables_loop E bucket_name limit
            (find_all ''table'' (attr_matches ''class'' re_roundy_sortable) soup)
            (emit [PageGet list_url] init_state))"

text \<open>The state a run ends in, returned or raised.\<close>

fun final_state :: "exn \<times> run_state + run_state \<Rightarrow> run_state" where
  "final_state (Inl (e, s)) = s"
| "final_state (Inr s) = s"

section \<open>Measures of a run\<close>

definition sleeps :: "event list \<Rightarrow> nat" where
  "sleeps tr = length (filter (\<lambda>e. e = Sleep) tr)"

fun is_image_get :: "event \<Rightarrow> bool" where
  "is_image_get (ImageGet u) = True"
| "is_image_get e = False"

definition downloads :: "event list \<Rightarrow> nat" where
  "downloads tr = length (filter is_image_get tr)"

fun is_put :: "event \<Rightarrow> bool" where
  "is_put (PutObject r) = True"
| "is_put e = False"

definition puts :: "event list \<Rightarrow> nat" where
  "puts tr = length (filter is_put tr)"

fun is_stored :: "env \<Rightarrow> event \<Rightarrow> bool" where
  "is_stored E (PutObject r) = (case put_object E r of Inr _ \<Rightarrow> True | Inl e \<Rightarrow> False)"
| "is_stored E e = False"

definition stored :: "env \<Rightarrow> event list \<Rightarrow> nat" where
  "stored E tr = length (filter (is_stored E) tr)"

text \<open>
  How far a row gets in the loop body: no entity, no image URL, the image download
  raises, the upload gives \<open>None\<close>, the image is stored; or the row makes the body raise
  (\<^verbatim>\<open>int\<close> or \<^verbatim>\<open>urljoin\<close> in \<^verbatim>\<open>extract_creature_data\<close>, or \<^verbatim>\<open>urlparse\<close> of the image URL).
\<close>

datatype outcome = NoEntity | NoImage | DownloadFailed | UploadFailed | Uploaded | Raises

definition upload_filename :: "CreatureData \<Rightarrow> string \<Rightarrow> string" where
  "upload_filename creature path =
     (let ext0 = snd (splitext path)
      in format_04d (index creature) @ ''_'' @ name creature
         @ (if ext0 = [] then ''.png'' else ext0))"

definition row_outcome :: "env \<Rightarrow> string \<Rightarrow> node \<Rightarrow> outcome" where
  "row_outcome E bucket_name row =
     (case extract_creature_data (urljoin E) base_url row of
        Inl e \<Rightarrow> Raises
      | Inr None \<Rightarrow> NoEntity
      | Inr (Some creature) \<Rightarrow>
          (case find_creature_image_and_types (fetch_page E) (url creature) of
             Inr (Some img_url, t0 # _) \<Rightarrow>
               if img_url = [] then NoImage
               else (case url_path E img_url of
                       Inl msg \<Rightarrow> Raises
                     | Inr path \<Rightarrow>
                         (case http_get E img_url of
                            Inl e \<Rightarrow> DownloadFailed
                          | Inr image_data \<Rightarrow>
                              (case put_object E
                                      (put_request_of bucket_name image_data
                                         (upload_filename creature path)
                                         (''images/'' @ t0 @ ''/'')) of
                                 Inl e \<Rightarrow> UploadFailed
                               | Inr _ \<Rightarrow> Uploaded)))
           | _ \<Rightarrow> NoImage))"

definition reaches_download :: "env \<Rightarrow> string \<Rightarrow> node \<Rightarrow> bool" where
  "reaches_download E bucket_name row =
     (row_outcome E bucket_name row \<in> {DownloadFailed, UploadFailed, Uploaded})"

definition reaches_put :: "env \<Rightarrow> string \<Rightarrow> node \<Rightarrow> bool" where
  "reaches_put E bucket_name row = (row_outcome E bucket_name row \<in> {UploadFailed, Uploaded})"

definition uploaded :: "env \<Rightarrow> string \<Rightarrow> node \<Rightarrow> bool" where
  "uploaded E bucket_name row = (row_outcome E bucket_name row = Uploaded)"

definition raises :: "env \<Rightarrow> string \<Rightarrow> node \<Rightarrow> bool" where
  "raises E bucket_name row = (row_outcome E bucket_name row = Raises)"

definition cycle_failed :: "env \<Rightarrow> string \<Rightarrow> node \<Rightarrow> bool" where
  "cycle_failed E bucket_name row =
     (row_outcome E bucket_name row \<in> {DownloadFailed, UploadFailed})"

definition upload_failed :: "env \<Rightarrow> string \<Rightarrow> node \<Rightarrow> bool" where
  "upload_failed E bucket_name row = (row_outcome E bucket_name row = UploadFailed)"

text \<open>The rows of the selected tables of the listing, in the order the two loops visit them.\<close>

definition selected_rows :: "node \<Rightarrow> node list" where
  "selected_rows soup =
     concat (map (find_all ''tr'' any_elem)
               (find_all ''table'' (attr_matches ''class'' re_roundy_sortable) soup))"

text \<open>
  The counters of a finished run: successes, rows visited, sleeps, image downloads, puts;
  with the exception when the run was ended by one.
\<close>

definition summary :: "run_state \<Rightarrow> int \<times> nat \<times> nat \<times> nat \<times> nat" where
  "summary s = (count s, visited s, sleeps (trace s), downloads (trace s), puts (trace s))"

definition run_summary ::
  "env \<Rightarrow> string \<Rightarrow> int \<Rightarrow> exn option \<times> int \<times> nat \<times> nat \<times> nat \<times> nat" where
  "run_summary E bucket_name limit =
     (case collect_data E bucket_name limit of
        Inl (e, s) \<Rightarrow> (Some e, summary s)
      | Inr s \<Rightarrow> (None, summary s))"

text \<open>The counters of a state reached from another by the loop over the first \<open>k\<close> of some rows.\<close>

definition loop_counts :: "env \<Rightarrow> string \<Rightarrow> node list \<Rightarrow> run_state \<Rightarrow> run_state \<Rightarrow> nat \<Rightarrow> bool" where
  "loop_counts E b rows s s' k \<longleftrightarrow>
     k \<le> length rows \<and> visited s' = visited s + k
     \<and> count s' = count s + int (length (filter (uploaded E b) (take k rows)))
     \<and> sleeps (trace s') = sleeps (trace s) + length (filter (reaches_download E b) (take k rows))
     \<and> downloads (trace s') =
         downloads (trace s) + length (filter (reaches_download E b) (take k rows))
     \<and> puts (trace s') = puts (trace s) + length (filter (reaches_put E b) (take k rows))
     \<and> stored E (trace s') = stored E (trace s) + length (filter (uploaded E b) (take k rows))"

section \<open>The words of the specification\<close>







section \<open>The info panel\<close>

text \<open>
  What \<^verbatim>\<open>find_creature_image_and_types\<close> reads in the info panel: the image URL from the
  first \<^verbatim>\<open>img\<close> element, and the tags, which are the stripped, lower-cased texts of the
  \<^verbatim>\<open>a\<close> elements below the panel whose \<^verbatim>\<open>href\<close> matches, the empty texts left out, in
  document order.
\<close>

definition panel_image :: "node \<Rightarrow> string option" where
  "panel_image info_table =
     (case find_elem ''img'' any_elem info_table of
        None \<Rightarrow> None
      | Some img \<Rightarrow>
          (case get_attr img ''src'' of
             None \<Rightarrow> None
           | Some src \<Rightarrow>
               if src = [] then None
               else Some (if startswith src ''//'' then ''https:'' @ src else src)))"

definition panel_tags :: "node \<Rightarrow> string list" where
  "panel_tags info_table =
     map (\<lambda>t. lower (get_text_strip t))
       (filter (\<lambda>t. get_text_strip t \<noteq> [])
          (filter (\<lambda>n. has_name ''a'' n \<and> attr_matches ''href'' re_wiki_type n)
             (descendants info_table)))"

section \<open>Example documents\<close>

definition header_row :: node where
  "header_row = Elem ''tr'' [] [Elem ''th'' [] [Text ''Ndex''], Elem ''th'' [] [Text ''Name'']]"

definition example_row :: node where
  "example_row =
     Elem ''tr'' []
       [Elem ''td'' [] [Text ''#0004''],
        Elem ''td'' [] [Elem ''a'' [(''href'', ''/wiki/Foo'')] [Text ''Foo'']],
        Elem ''td'' [] [Text ''Type'']]"

definition other_row :: node where
  "other_row =
     Elem ''tr'' []
       [Elem ''td'' [] [Text ''#0005''],
        Elem ''td'' [] [Elem ''a'' [(''href'', ''/wiki/Bar'')] [Text ''Bar'']],
        Elem ''td'' [] [Text ''Type'']]"


text \<open>A row whose link has an \<^verbatim>\<open>href\<close> that \<^verbatim>\<open>urljoin\<close> rejects.\<close>

definition bracket_row :: node where
  "bracket_row =
     Elem ''tr'' []
       [Elem ''td'' [] [Text ''#0003''],
        Elem ''td'' [] [Elem ''a'' [(''href'', ''//['')] [Text ''Baz'']],
        Elem ''td'' [] [Text ''Type'']]"



definition example_panel :: node where
  "example_panel =
     Elem ''table'' [(''class'', ''roundy'')]
       [Elem ''img'' [(''src'', ''//example.com/a.png'')] [],
        Elem ''a'' [(''href'', ''/wiki/Fire_type'')] [Text ''Fire''],
        Elem ''a'' [(''href'', ''/wiki/Fire_type'')] [Text ''fire'']]"

definition example_page :: node where
  "example_page = Elem ''html'' [] [Elem ''p'' [] [Text ''Foo''], example_panel]"




definition empty_src_img :: node where
  "empty_src_img = Elem ''img'' [(''src'', [])] []"

definition empty_src_panel :: node where
  "empty_src_panel = Elem ''table'' [(''class'', ''infobox'')] [empty_src_img]"

definition empty_src_page :: node where
  "empty_src_page = Elem ''html'' [] [empty_src_panel]"

definition empty_src_fetch :: "string \<Rightarrow> exn + node" where
  "empty_src_fetch u = Inr empty_src_page"

definition example_fetch :: "string \<Rightarrow> exn + node" where
  "example_fetch u = Inr example_page"

definition plain_page :: node where
  "plain_page = Elem ''html'' [] [Elem ''p'' [] [Text ''Foo'']]"

definition plain_fetch :: "string \<Rightarrow> exn + node" where
  "plain_fetch u = Inr plain_page"

definition no_image_page :: node where
  "no_image_page = Elem ''html'' [] [Elem ''table'' [(''class'', ''roundy'')] []]"


definition example_listing :: node where
  "example_listing =
     Elem ''html'' []
       [Elem ''table'' [(''class'', ''roundy'')] [header_row, example_row],
        Elem ''table'' [(''class'', ''sortable'')] [other_row]]"

text \<open>
  What \<^verbatim>\<open>urljoin\<close> and \<^verbatim>\<open>urlparse(...).path\<close> give on the references of these examples:
  against a base URL without a path, a reference starting with \<^verbatim>\<open>//\<close> takes the scheme
  of the base and any other one, an absolute path, follows the base; the path of an
  \<^verbatim>\<open>https\<close> URL starts after the host; and a host with one square bracket and not the
  other is rejected.
\<close>

definition netloc_of :: "string \<Rightarrow> string" where
  "netloc_of r = takeWhile (\<lambda>c. c \<notin> set ''/?#'') r"

definition bad_brackets :: "string \<Rightarrow> bool" where
  "bad_brackets n = ((CHR ''['' \<in> set n) \<noteq> (CHR '']'' \<in> set n))"

definition example_urljoin :: "string \<Rightarrow> string \<Rightarrow> string + string" where
  "example_urljoin b h =
     (if startswith h ''//''
      then (if bad_brackets (netloc_of (drop 2 h)) then Inl ''Invalid IPv6 URL''
            else Inr (''https:'' @ h))
      else Inr (b @ h))"

definition example_url_path :: "string \<Rightarrow> string + string" where
  "example_url_path u =
     (if startswith u ''https://''
      then (if bad_brackets (netloc_of (drop 8 u)) then Inl ''Invalid IPv6 URL''
            else Inr (takeWhile (\<lambda>c. c \<notin> set ''?#'')
                        (dropWhile (\<lambda>c. c \<notin> set ''/?#'') (drop 8 u))))
      else Inr (takeWhile (\<lambda>c. c \<notin> set ''?#'') u))"

text \<open>
  A world where the listing is \<^const>\<open>example_listing\<close>, the page of \<^verbatim>\<open>/wiki/Foo\<close> has an
  image and the page of \<^verbatim>\<open>/wiki/Bar\<close> has none; every download and every put succeeds.
\<close>

definition example_env :: env where
  "example_env =
     \<lparr>fetch_page = (\<lambda>u. if u = list_url then Inr example_listing
                          else if u = base_url @ ''/wiki/Foo'' then Inr example_page
                          else Inr no_image_page),
      http_get = (\<lambda>u. Inr ''data''),
      put_object = (\<lambda>r. Inr ()),
      urljoin = example_urljoin,
      url_path = example_url_path\<rparr>"

text \<open>The same world with a storage that refuses the first entity's key and takes every other.\<close>

definition refusing_env :: env where
  "refusing_env =
     example_env
       \<lparr>fetch_page := (\<lambda>u. if u = list_url then Inr example_listing else Inr example_page),
        put_object := (\<lambda>r. if Key r = ''images/fire/0004_Foo.png''
                             then Inl (OtherException ''AccessDenied'') else Inr ())\<rparr>"

text \<open>The same world with the refused row after the storable one.\<close>

definition late_refusal_listing :: node where
  "late_refusal_listing =
     Elem ''html'' [] [Elem ''table'' [(''class'', ''roundy'')] [other_row, example_row]]"

definition late_refusal_env :: env where
  "late_refusal_env =
     refusing_env
       \<lparr>fetch_page := (\<lambda>u. if u = list_url then Inr late_refusal_listing
                            else Inr example_page)\<rparr>"

text \<open>A world where every page fetch fails.\<close>

definition down_env :: env where
  "down_env = example_env \<lparr>fetch_page := (\<lambda>u. Inl (OtherException ''503 Server Error''))\<rparr>"



text \<open>
  A world whose listing has five entity rows in two tables, every detail page with an
  image, every download and every put succeeding.
\<close>

definition five_listing :: node where
  "five_listing =
     Elem ''html'' []
       [Elem ''table'' [(''class'', ''roundy'')] [example_row, other_row, example_row],
        Elem ''table'' [(''class'', ''sortable'')] [other_row, example_row]]"

definition five_env :: env where
  "five_env =
     example_env
       \<lparr>fetch_page := (\<lambda>u. if u = list_url then Inr five_listing else Inr example_page)\<rparr>"

text \<open>
  A world whose listing has a row with a rejected \<^verbatim>\<open>href\<close> before a storable row, and a
  world whose listing has, after a storable row, a row whose detail page has a rejected
  image URL.
\<close>

definition bracket_listing :: node where
  "bracket_listing =
     Elem ''html'' [] [Elem ''table'' [(''class'', ''roundy'')] [bracket_row, example_row]]"

definition bracket_env :: env where
  "bracket_env =
     example_env
       \<lparr>fetch_page := (\<lambda>u. if u = list_url then Inr bracket_listing else Inr example_page)\<rparr>"



section \<open>The text functions and the document queries\<close>

lemma re_search_digits_None_iff:
  "re_search_digits s = None \<longleftrightarrow> (\<forall>c \<in> set s. \<not> is_digit c)"
  by (auto simp: re_search_digits_def Let_def dropWhile_eq_Nil_conv)




lemma find_elem_None_iff:
  "find_elem nm p e = None \<longleftrightarrow> (\<forall>n \<in> set (descendants e). \<not> (has_name nm n \<and> p n))"
proof -
  have "find_elem nm p e = None \<longleftrightarrow> filter (\<lambda>n. has_name nm n \<and> p n) (descendants e) = []"
    by (simp add: find_elem_def find_all_def split: list.splits)
  then show ?thesis by (simp add: filter_empty_conv)
qed

lemma find_elem_Some:
  assumes "find_elem nm p e = Some x"
  shows "\<exists>before after. descendants e = before @ x # after
           \<and> (\<forall>y \<in> set before. \<not> (has_name nm y \<and> p y)) \<and> has_name nm x \<and> p x"
proof -
  from assms obtain ys where "filter (\<lambda>n. has_name nm n \<and> p n) (descendants e) = x # ys"
    by (auto simp: find_elem_def find_all_def split: list.splits)
  then show ?thesis
    by (auto simp: filter_eq_Cons_iff)
qed

section \<open>The patterns\<close>

text \<open>
  The three searched patterns say what the regular expressions say: an occurrence of one
  of the alternatives, and for the type links an occurrence of \<^verbatim>\<open>/wiki/\<close> followed, with
  no line feed between, by \<^verbatim>\<open>_type\<close>.
\<close>

lemma startswith_iff: "startswith s p \<longleftrightarrow> (\<exists>b. s = p @ b)"
proof
  assume "startswith s p"
  then have "s = p @ drop (length p) s"
    unfolding startswith_def by (metis append_take_drop_id)
  then show "\<exists>b. s = p @ b" ..
next
  assume "\<exists>b. s = p @ b"
  then show "startswith s p" by (auto simp: startswith_def)
qed

lemma contains_iff: "contains p s \<longleftrightarrow> (\<exists>a b. s = a @ p @ b)"
proof (induction s)
  case Nil
  show ?case by auto
next
  case (Cons c s)
  show ?case
  proof
    assume "contains p (c # s)"
    then consider "startswith (c # s) p" | "contains p s" by auto
    then show "\<exists>a b. c # s = a @ p @ b"
    proof cases
      case 1
      then obtain b where "c # s = p @ b" by (auto simp: startswith_iff)
      then have "c # s = [] @ p @ b" by simp
      then show ?thesis by blast
    next
      case 2
      with Cons.IH obtain a b where "s = a @ p @ b" by blast
      then have "c # s = (c # a) @ p @ b" by simp
      then show ?thesis by blast
    qed
  next
    assume "\<exists>a b. c # s = a @ p @ b"
    then obtain a b where ab: "c # s = a @ p @ b" by blast
    show "contains p (c # s)"
    proof (cases a)
      case Nil
      with ab have "startswith (c # s) p" by (auto simp: startswith_iff)
      then show ?thesis by simp
    next
      case (Cons x a')
      with ab have "s = a' @ p @ b" by simp
      with Cons.IH have "contains p s" by blast
      then show ?thesis by simp
    qed
  qed
qed


lemma re_infobox_roundy_iff:
  "re_infobox_roundy v \<longleftrightarrow> (\<exists>a b. v = a @ ''infobox'' @ b) \<or> (\<exists>a b. v = a @ ''roundy'' @ b)"
  by (simp only: re_infobox_roundy_def contains_iff)

lemma re_roundy_sortable_iff:
  "re_roundy_sortable v \<longleftrightarrow> (\<exists>a b. v = a @ ''roundy'' @ b) \<or> (\<exists>a b. v = a @ ''sortable'' @ b)"
  by (simp only: re_roundy_sortable_def contains_iff)



section \<open>The model against the words of the specification\<close>












section \<open>RowExtractor\<close>

lemma extract_creature_data_cases:
  "extract_creature_data uj base row =
     (let cells = find_all ''td'' any_elem row in
      if length cells < 3 then Inr None
      else case re_search_digits (get_text_strip (cells ! 0)) of
        None \<Rightarrow> Inr None
      | Some m \<Rightarrow>
          (case find_elem ''a'' (attr_present ''href'') row of
             None \<Rightarrow> Inr None
           | Some link \<Rightarrow>
               (case py_int m of
                  Inl e \<Rightarrow> Inl e
                | Inr i \<Rightarrow>
                    (case uj base (the (get_attr link ''href'')) of
                       Inl msg \<Rightarrow> Inl (ValueError msg)
                     | Inr u \<Rightarrow>
                         Inr (Some \<lparr>index = i, name = get_text_strip link, url = u,
                                    types = None, image_url = None\<rparr>)))))"
  by (auto simp: extract_creature_data_def Let_def attr_present_def
           split: option.splits sum.splits dest!: find_elem_Some)

lemma extract_creature_data_exn:
  "extract_creature_data uj base row = Inl e \<Longrightarrow> \<exists>msg. e = ValueError msg"
  by (auto simp: extract_creature_data_cases Let_def py_int_def
           split: option.splits sum.splits if_splits)




section \<open>DetailExtractor\<close>

lemma find_creature_no_exn: "find_creature_image_and_types fetch u \<noteq> Inl e"
  by (simp add: find_creature_image_and_types_def Let_def split: sum.splits option.splits)

lemma find_creature_fetch_fails:
  "fetch u = Inl e \<Longrightarrow> find_creature_image_and_types fetch u = Inr (None, [''unknown''])"
  by (simp add: find_creature_image_and_types_def)

lemma find_creature_no_panel:
  "fetch u = Inr soup \<Longrightarrow>
   find_elem ''table'' (attr_matches ''class'' re_infobox_roundy) soup = None \<Longrightarrow>
   find_creature_image_and_types fetch u = Inr (None, [])"
  by (simp add: find_creature_image_and_types_def)

lemma find_creature_panel:
  "fetch u = Inr soup \<Longrightarrow>
   find_elem ''table'' (attr_matches ''class'' re_infobox_roundy) soup = Some panel \<Longrightarrow>
   find_creature_image_and_types fetch u =
     Inr (panel_image panel, if panel_tags panel = [] then [''unknown''] else panel_tags panel)"
  by (simp add: find_creature_image_and_types_def Let_def panel_image_def panel_tags_def
        find_all_def)

lemma panel_image_nonempty: "panel_image p \<noteq> Some []"
  by (simp add: panel_image_def split: option.splits)

lemma find_creature_image_tags:
  assumes "find_creature_image_and_types fetch u = Inr (Some i, tags)"
  shows "tags \<noteq> [] \<and> i \<noteq> []"
proof (cases "fetch u")
  case (Inl e)
  with assms show ?thesis by (simp add: find_creature_fetch_fails)
next
  case (Inr soup)
  show ?thesis
  proof (cases "find_elem ''table'' (attr_matches ''class'' re_infobox_roundy) soup")
    case None
    with Inr assms show ?thesis by (simp add: find_creature_no_panel)
  next
    case (Some panel)
    with Inr assms panel_image_nonempty [of panel] show ?thesis
      by (auto simp: find_creature_panel split: if_splits)
  qed
qed

lemma find_creature_empty_tags:
  assumes "find_creature_image_and_types fetch u = Inr (i, [])"
  shows "i = None \<and> (\<exists>soup. fetch u = Inr soup
           \<and> find_elem ''table'' (attr_matches ''class'' re_infobox_roundy) soup = None)"
proof (cases "fetch u")
  case (Inl e)
  with assms show ?thesis by (simp add: find_creature_fetch_fails)
next
  case (Inr soup)
  show ?thesis
  proof (cases "find_elem ''table'' (attr_matches ''class'' re_infobox_roundy) soup")
    case None
    with Inr assms show ?thesis by (simp add: find_creature_no_panel)
  next
    case (Some panel)
    with Inr assms show ?thesis
      by (auto simp: find_creature_panel split: if_splits)
  qed
qed



section \<open>ImageArchiver\<close>

lemma upload_image_ok:
  "put (put_request_of b d f p) = Inr x \<Longrightarrow>
   upload_image put b d f p =
     (Inr (Some (''https://'' @ b @ ''.s3.amazonaws.com/'' @ p @ f)),
      [PutObject (put_request_of b d f p)])"
  by (simp add: upload_image_def)

lemma upload_image_fails:
  "put (put_request_of b d f p) = Inl e \<Longrightarrow>
   upload_image put b d f p =
     (Inr None,
      [PutObject (put_request_of b d f p),
       Log ERROR (if e = NoCredentialsError then ''AWS credentials not found!''
                  else ''Failed to upload '' @ f @ '' to S3: '' @ exn_str e)])"
  by (cases e) (simp_all add: upload_image_def)


section \<open>One row of the run\<close>

lemma emit_simps [simp]:
  "trace (emit evs s) = trace s @ evs"
  "count (emit evs s) = count s"
  "visited (emit evs s) = visited s"
  by (simp_all add: emit_def)

lemma sleeps_simps [simp]:
  "sleeps [] = 0"
  "sleeps (e # tr) = (if e = Sleep then 1 else 0) + sleeps tr"
  "sleeps (tr @ tr') = sleeps tr + sleeps tr'"
  by (simp_all add: sleeps_def)

lemma downloads_simps [simp]:
  "downloads [] = 0"
  "downloads (e # tr) = (if is_image_get e then 1 else 0) + downloads tr"
  "downloads (tr @ tr') = downloads tr + downloads tr'"
  by (simp_all add: downloads_def)

lemma puts_simps [simp]:
  "puts [] = 0"
  "puts (e # tr) = (if is_put e then 1 else 0) + puts tr"
  "puts (tr @ tr') = puts tr + puts tr'"
  by (simp_all add: puts_def)

lemma stored_simps [simp]:
  "stored E [] = 0"
  "stored E (e # tr) = (if is_stored E e then 1 else 0) + stored E tr"
  "stored E (tr @ tr') = stored E tr + stored E tr'"
  by (simp_all add: stored_def)

lemma row_body_effect:
  "\<exists>s'. (if raises E b row then (\<exists>msg. row_body E b row s = Inl (ValueError msg, s'))
          else row_body E b row s = Inr s')
     \<and> visited s' = visited s
     \<and> count s' = count s + (if uploaded E b row then 1 else 0)
     \<and> sleeps (trace s') = sleeps (trace s) + (if reaches_download E b row then 1 else 0)
     \<and> downloads (trace s') = downloads (trace s) + (if reaches_download E b row then 1 else 0)
     \<and> puts (trace s') = puts (trace s) + (if reaches_put E b row then 1 else 0)
     \<and> stored E (trace s') = stored E (trace s) + (if uploaded E b row then 1 else 0)"
proof (cases "extract_creature_data (urljoin E) base_url row")
  case (Inl e)
  with extract_creature_data_exn [OF Inl] show ?thesis
    by (auto simp: row_body_def row_outcome_def uploaded_def reaches_download_def
          reaches_put_def raises_def)
next
  case ex: (Inr r)
  show ?thesis
  proof (cases r)
    case None
    with ex show ?thesis
      by (simp add: row_body_def row_outcome_def uploaded_def reaches_download_def
            reaches_put_def raises_def)
  next
    case (Some c)
    show ?thesis
    proof (cases "find_creature_image_and_types (fetch_page E) (url c)")
      case (Inl e)
      then show ?thesis by (simp add: find_creature_no_exn)
    next
      case fc: (Inr it)
      obtain img tys where it: "it = (img, tys)" by (cases it)
      show ?thesis
      proof (cases "img = None \<or> img = Some []")
        case True
        with ex Some fc it show ?thesis
          by (auto simp: row_body_def row_outcome_def uploaded_def reaches_download_def
                reaches_put_def raises_def Let_def split: list.splits)
      next
        case False
        then obtain i where i: "img = Some i" "i \<noteq> []" by auto
        with fc it find_creature_image_tags [of "fetch_page E" "url c" i tys]
        obtain t0 ts where tys: "tys = t0 # ts" by (cases tys) auto
        show ?thesis
        proof (cases "url_path E i")
          case (Inl msg)
          with ex Some fc it i tys show ?thesis
            by (simp add: row_body_def row_outcome_def uploaded_def reaches_download_def
                  reaches_put_def raises_def Let_def)
        next
          case up: (Inr path)
          show ?thesis
          proof (cases "http_get E i")
            case (Inl e)
            with ex Some fc it i tys up show ?thesis
              by (simp add: row_body_def row_outcome_def uploaded_def reaches_download_def
                    reaches_put_def raises_def Let_def)
          next
            case dl: (Inr d)
            define f where "f = upload_filename c path"
            define p where "p = ''images/'' @ t0 @ ''/''"
            show ?thesis
            proof (cases "put_object E (put_request_of b d f p)")
              case (Inl e)
              with ex Some fc it i tys up dl upload_image_fails [of "put_object E" b d f p e]
              show ?thesis
                by (simp add: row_body_def row_outcome_def uploaded_def reaches_download_def
                      reaches_put_def raises_def Let_def f_def p_def upload_filename_def)
            next
              case (Inr x)
              with ex Some fc it i tys up dl upload_image_ok [of "put_object E" b d f p x]
              show ?thesis
                by (simp add: row_body_def row_outcome_def uploaded_def reaches_download_def
                      reaches_put_def raises_def Let_def f_def p_def upload_filename_def)
            qed
          qed
        qed
      qed
    qed
  qed
qed

lemma raises_excludes:
  "raises E b row \<Longrightarrow>
     \<not> uploaded E b row \<and> \<not> reaches_download E b row \<and> \<not> reaches_put E b row"
  by (simp add: raises_def uploaded_def reaches_download_def reaches_put_def)

lemma row_body_returns:
  "\<not> raises E b row \<Longrightarrow> \<exists>s'. row_body E b row s = Inr s'"
  using row_body_effect [of E b row s] by auto

lemma row_body_exn:
  assumes "row_body E b row s = Inl (e, s')"
  shows "\<exists>msg. e = ValueError msg"
proof (cases "raises E b row")
  case True
  with row_body_effect [of E b row s] assms show ?thesis by auto
next
  case False
  with row_body_returns [of E b row s] assms show ?thesis by auto
qed

lemma reaches_download_iff:
  "reaches_download E b row \<longleftrightarrow>
     (\<exists>c i tags path. extract_creature_data (urljoin E) base_url row = Inr (Some c)
        \<and> find_creature_image_and_types (fetch_page E) (url c) = Inr (Some i, tags)
        \<and> url_path E i = Inr path)"
proof
  assume "reaches_download E b row"
  then show "\<exists>c i tags path. extract_creature_data (urljoin E) base_url row = Inr (Some c)
        \<and> find_creature_image_and_types (fetch_page E) (url c) = Inr (Some i, tags)
        \<and> url_path E i = Inr path"
    by (auto simp: reaches_download_def row_outcome_def
             split: sum.splits option.splits prod.splits list.splits if_splits)
next
  assume "\<exists>c i tags path. extract_creature_data (urljoin E) base_url row = Inr (Some c)
        \<and> find_creature_image_and_types (fetch_page E) (url c) = Inr (Some i, tags)
        \<and> url_path E i = Inr path"
  then obtain c i tags path where
    c: "extract_creature_data (urljoin E) base_url row = Inr (Some c)" and
    f: "find_creature_image_and_types (fetch_page E) (url c) = Inr (Some i, tags)" and
    u: "url_path E i = Inr path"
    by blast
  from find_creature_image_tags [OF f] obtain t0 ts where "tags = t0 # ts" "i \<noteq> []"
    by (cases tags) auto
  with c f u show "reaches_download E b row"
    by (simp add: reaches_download_def row_outcome_def split: sum.splits)
qed

section \<open>The loops\<close>

lemma loop_counts_zero:
  "visited s' = visited s \<Longrightarrow> count s' = count s \<Longrightarrow> sleeps (trace s') = sleeps (trace s) \<Longrightarrow>
   downloads (trace s') = downloads (trace s) \<Longrightarrow> puts (trace s') = puts (trace s) \<Longrightarrow>
   stored E (trace s') = stored E (trace s) \<Longrightarrow> loop_counts E b rows s s' 0"
  by (simp add: loop_counts_def)

lemma loop_counts_step:
  assumes "visited s1 = Suc (visited s)"
    "count s1 = count s + (if uploaded E b row then 1 else 0)"
    "sleeps (trace s1) = sleeps (trace s) + (if reaches_download E b row then 1 else 0)"
    "downloads (trace s1) = downloads (trace s) + (if reaches_download E b row then 1 else 0)"
    "puts (trace s1) = puts (trace s) + (if reaches_put E b row then 1 else 0)"
    "stored E (trace s1) = stored E (trace s) + (if uploaded E b row then 1 else 0)"
    "loop_counts E b rows s1 s' k"
  shows "loop_counts E b (row # rows) s s' (Suc k)"
  using assms by (simp add: loop_counts_def)

lemma rows_loop_effect:
  "\<exists>s' k. loop_counts E b rows s s' k
     \<and> (lim \<le> count s \<longrightarrow> k = 0)
     \<and> (count s \<le> lim \<longrightarrow> count s' \<le> lim)
     \<and> (count s < lim \<and> count s' = lim \<longrightarrow> 0 < k \<and> uploaded E b (rows ! (k - 1)))
     \<and> ((\<exists>fl. rows_loop E b lim rows s = Inr (fl, s')
             \<and> (\<not> fl \<longrightarrow> k = length rows) \<and> (fl \<longrightarrow> lim \<le> count s')
             \<and> (\<forall>r \<in> set (take k rows). \<not> raises E b r))
          \<or> (\<exists>msg. rows_loop E b lim rows s = Inl (ValueError msg, s')
                \<and> 0 < k \<and> raises E b (rows ! (k - 1))
                \<and> (\<forall>r \<in> set (take (k - 1) rows). \<not> raises E b r)
                \<and> count s' < lim))"
proof (induction rows arbitrary: s)
  case Nil
  have "loop_counts E b [] s s 0" by (simp add: loop_counts_zero)
  then show ?case
    by (intro exI [of _ s] exI [of _ "0::nat"]) auto
next
  case (Cons row rows)
  show ?case
  proof (cases "lim \<le> count s")
    case True
    have "loop_counts E b (row # rows) s (emit [Log INFO ''Limite atteinte.''] s) 0"
      by (simp add: loop_counts_zero)
    with True show ?thesis
      by (intro exI [of _ "emit [Log INFO ''Limite atteinte.''] s"] exI [of _ "0::nat"]) auto
  next
    case False
    from row_body_effect [of E b row "s\<lparr>visited := Suc (visited s)\<rparr>"] obtain s1 where
      e: "if raises E b row
          then (\<exists>msg. row_body E b row (s\<lparr>visited := Suc (visited s)\<rparr>) = Inl (ValueError msg, s1))
          else row_body E b row (s\<lparr>visited := Suc (visited s)\<rparr>) = Inr s1" and
      s1: "visited s1 = Suc (visited s)"
        "count s1 = count s + (if uploaded E b row then 1 else 0)"
        "sleeps (trace s1) = sleeps (trace s) + (if reaches_download E b row then 1 else 0)"
        "downloads (trace s1) = downloads (trace s) + (if reaches_download E b row then 1 else 0)"
        "puts (trace s1) = puts (trace s) + (if reaches_put E b row then 1 else 0)"
        "stored E (trace s1) = stored E (trace s) + (if uploaded E b row then 1 else 0)"
      by auto
    show ?thesis
    proof (cases "raises E b row")
      case True
      with e obtain msg where
        r: "row_body E b row (s\<lparr>visited := Suc (visited s)\<rparr>) = Inl (ValueError msg, s1)"
        by auto
      from True have nu: "\<not> uploaded E b row" by (simp add: raises_excludes)
      have z: "loop_counts E b rows s1 s1 0" by (simp add: loop_counts_zero)
      have lc: "loop_counts E b (row # rows) s s1 (Suc 0)"
        by (rule loop_counts_step [OF s1 z])
      have l: "rows_loop E b lim (row # rows) s = Inl (ValueError msg, s1)"
        using False r by simp
      from nu s1(2) have c: "count s1 = count s" by simp
      from lc l c False True show ?thesis
        by (intro exI [of _ s1] exI [of _ "Suc 0"]) auto
    next
      case nr: False
      with e have r: "row_body E b row (s\<lparr>visited := Suc (visited s)\<rparr>) = Inr s1" by simp
      have l: "rows_loop E b lim (row # rows) s = rows_loop E b lim rows s1"
        using False r by simp
      from Cons.IH [of s1] obtain s' k where
        lc: "loop_counts E b rows s1 s' k" and
        k0: "lim \<le> count s1 \<longrightarrow> k = 0" and
        le: "count s1 \<le> lim \<longrightarrow> count s' \<le> lim" and
        lst: "count s1 < lim \<and> count s' = lim \<longrightarrow> 0 < k \<and> uploaded E b (rows ! (k - 1))" and
        sh: "(\<exists>fl. rows_loop E b lim rows s1 = Inr (fl, s')
               \<and> (\<not> fl \<longrightarrow> k = length rows) \<and> (fl \<longrightarrow> lim \<le> count s')
               \<and> (\<forall>r \<in> set (take k rows). \<not> raises E b r))
            \<or> (\<exists>msg. rows_loop E b lim rows s1 = Inl (ValueError msg, s')
                  \<and> 0 < k \<and> raises E b (rows ! (k - 1))
                  \<and> (\<forall>r \<in> set (take (k - 1) rows). \<not> raises E b r)
                  \<and> count s' < lim)"
        by blast
      have lc': "loop_counts E b (row # rows) s s' (Suc k)"
        by (rule loop_counts_step [OF s1 lc])
      from False s1(2) have c1: "count s1 \<le> lim" by (simp split: if_splits)
      with le have le': "count s' \<le> lim" by simp
      have lst': "count s' = lim \<longrightarrow> uploaded E b ((row # rows) ! (Suc k - 1))"
      proof (cases "count s1 < lim")
        case True
        with lst show ?thesis by (cases k) auto
      next
        case f: False
        with k0 have k: "k = 0" by simp
        with lc have "count s' = count s1" by (simp add: loop_counts_def)
        with f False s1(2) k show ?thesis by (auto split: if_splits)
      qed
      have sh': "(\<exists>fl. rows_loop E b lim (row # rows) s = Inr (fl, s')
               \<and> (\<not> fl \<longrightarrow> Suc k = length (row # rows)) \<and> (fl \<longrightarrow> lim \<le> count s')
               \<and> (\<forall>r \<in> set (take (Suc k) (row # rows)). \<not> raises E b r))
            \<or> (\<exists>msg. rows_loop E b lim (row # rows) s = Inl (ValueError msg, s')
                  \<and> 0 < Suc k \<and> raises E b ((row # rows) ! (Suc k - 1))
                  \<and> (\<forall>r \<in> set (take (Suc k - 1) (row # rows)). \<not> raises E b r)
                  \<and> count s' < lim)"
        using sh
      proof
        assume "\<exists>fl. rows_loop E b lim rows s1 = Inr (fl, s')
               \<and> (\<not> fl \<longrightarrow> k = length rows) \<and> (fl \<longrightarrow> lim \<le> count s')
               \<and> (\<forall>r \<in> set (take k rows). \<not> raises E b r)"
        with l nr show ?thesis by auto
      next
        assume "\<exists>msg. rows_loop E b lim rows s1 = Inl (ValueError msg, s')
                  \<and> 0 < k \<and> raises E b (rows ! (k - 1))
                  \<and> (\<forall>r \<in> set (take (k - 1) rows). \<not> raises E b r)
                  \<and> count s' < lim"
        then obtain msg where
          x: "rows_loop E b lim rows s1 = Inl (ValueError msg, s')" "0 < k"
            "raises E b (rows ! (k - 1))" "\<forall>r \<in> set (take (k - 1) rows). \<not> raises E b r"
            "count s' < lim"
          by blast
        from x(2) obtain k' where k': "k = Suc k'" by (cases k) auto
        with x l nr have "rows_loop E b lim (row # rows) s = Inl (ValueError msg, s')
                  \<and> 0 < Suc k \<and> raises E b ((row # rows) ! (Suc k - 1))
                  \<and> (\<forall>r \<in> set (take (Suc k - 1) (row # rows)). \<not> raises E b r)
                  \<and> count s' < lim"
          by simp
        then show ?thesis by blast
      qed
      from lc' le' lst' sh' False show ?thesis
        by (intro exI [of _ s'] exI [of _ "Suc k"]) simp
    qed
  qed
qed

lemma rows_loop_append:
  "rows_loop E b lim (rs1 @ rs2) s =
     (case rows_loop E b lim rs1 s of
        Inl x \<Rightarrow> Inl x
      | Inr (True, s') \<Rightarrow> Inr (True, s')
      | Inr (False, s') \<Rightarrow> rows_loop E b lim rs2 s')"
  by (induction rs1 arbitrary: s) (auto split: sum.splits)

lemma tables_loop_flat:
  "tables_loop E b lim ts s =
     (case rows_loop E b lim (concat (map (find_all ''tr'' any_elem) ts)) s of
        Inl x \<Rightarrow> Inl x
      | Inr (fl, s') \<Rightarrow> Inr s')"
  by (induction ts arbitrary: s)
     (auto simp: rows_loop_append split: sum.splits prod.splits bool.splits)

lemma collect_data_flat:
  "fetch_page E list_url = Inr soup \<Longrightarrow>
   collect_data E b lim =
     (case rows_loop E b lim (selected_rows soup) (emit [PageGet list_url] init_state) of
        Inl x \<Rightarrow> Inl x
      | Inr (fl, s') \<Rightarrow> Inr s')"
  by (simp add: collect_data_def tables_loop_flat selected_rows_def)

lemma count_reaches_download:
  "length (filter (reaches_download E b) rs)
     = length (filter (uploaded E b) rs) + length (filter (cycle_failed E b) rs)"
  by (induction rs) (auto simp: reaches_download_def uploaded_def cycle_failed_def)

lemma count_reaches_put:
  "length (filter (reaches_put E b) rs)
     = length (filter (uploaded E b) rs) + length (filter (upload_failed E b) rs)"
  by (induction rs) (auto simp: reaches_put_def uploaded_def upload_failed_def)

lemma run_effect:
  assumes "fetch_page E list_url = Inr soup"
  shows "\<exists>s. visited s \<le> length (selected_rows soup)
     \<and> count s = int (length (filter (uploaded E b) (take (visited s) (selected_rows soup))))
     \<and> sleeps (trace s) =
         length (filter (reaches_download E b) (take (visited s) (selected_rows soup)))
     \<and> downloads (trace s) =
         length (filter (reaches_download E b) (take (visited s) (selected_rows soup)))
     \<and> puts (trace s) =
         length (filter (reaches_put E b) (take (visited s) (selected_rows soup)))
     \<and> stored E (trace s) =
         length (filter (uploaded E b) (take (visited s) (selected_rows soup)))
     \<and> (0 \<le> lim \<longrightarrow> count s \<le> lim)
     \<and> (0 < lim \<and> count s = lim \<longrightarrow>
          0 < visited s \<and> uploaded E b (selected_rows soup ! (visited s - 1)))
     \<and> ((collect_data E b lim = Inr s
           \<and> (visited s < length (selected_rows soup) \<longrightarrow> lim \<le> count s)
           \<and> (\<forall>r \<in> set (take (visited s) (selected_rows soup)). \<not> raises E b r))
          \<or> (\<exists>msg. collect_data E b lim = Inl (ValueError msg, s)
                \<and> 0 < visited s \<and> raises E b (selected_rows soup ! (visited s - 1))
                \<and> (\<forall>r \<in> set (take (visited s - 1) (selected_rows soup)). \<not> raises E b r)
                \<and> count s < lim))"
proof -
  define rows where "rows = selected_rows soup"
  define s0 where "s0 = emit [PageGet list_url] init_state"
  have z: "count s0 = 0" "visited s0 = 0" "sleeps (trace s0) = 0" "downloads (trace s0) = 0"
    "puts (trace s0) = 0" "stored E (trace s0) = 0"
    by (simp_all add: s0_def init_state_def)
  from rows_loop_effect [of E b rows s0 lim] obtain s k where
    lc: "loop_counts E b rows s0 s k" and
    le: "count s0 \<le> lim \<longrightarrow> count s \<le> lim" and
    lst: "count s0 < lim \<and> count s = lim \<longrightarrow> 0 < k \<and> uploaded E b (rows ! (k - 1))" and
    sh: "(\<exists>fl. rows_loop E b lim rows s0 = Inr (fl, s)
             \<and> (\<not> fl \<longrightarrow> k = length rows) \<and> (fl \<longrightarrow> lim \<le> count s)
             \<and> (\<forall>r \<in> set (take k rows). \<not> raises E b r))
          \<or> (\<exists>msg. rows_loop E b lim rows s0 = Inl (ValueError msg, s)
                \<and> 0 < k \<and> raises E b (rows ! (k - 1))
                \<and> (\<forall>r \<in> set (take (k - 1) rows). \<not> raises E b r)
                \<and> count s < lim)"
    by blast
  from lc have k: "visited s = k" and kl: "k \<le> length rows"
    and c: "count s = int (length (filter (uploaded E b) (take k rows)))"
    and sl: "sleeps (trace s) = length (filter (reaches_download E b) (take k rows))"
    and dl: "downloads (trace s) = length (filter (reaches_download E b) (take k rows))"
    and pt: "puts (trace s) = length (filter (reaches_put E b) (take k rows))"
    and st: "stored E (trace s) = length (filter (uploaded E b) (take k rows))"
    unfolding loop_counts_def z by simp_all
  from le have le': "0 \<le> lim \<longrightarrow> count s \<le> lim" unfolding z .
  from lst have lst': "0 < lim \<and> count s = lim \<longrightarrow> 0 < k \<and> uploaded E b (rows ! (k - 1))"
    unfolding z .
  have sh': "(collect_data E b lim = Inr s
           \<and> (k < length rows \<longrightarrow> lim \<le> count s)
           \<and> (\<forall>r \<in> set (take k rows). \<not> raises E b r))
          \<or> (\<exists>msg. collect_data E b lim = Inl (ValueError msg, s)
                \<and> 0 < k \<and> raises E b (rows ! (k - 1))
                \<and> (\<forall>r \<in> set (take (k - 1) rows). \<not> raises E b r)
                \<and> count s < lim)"
    using sh
  proof
    assume "\<exists>fl. rows_loop E b lim rows s0 = Inr (fl, s)
             \<and> (\<not> fl \<longrightarrow> k = length rows) \<and> (fl \<longrightarrow> lim \<le> count s)
             \<and> (\<forall>r \<in> set (take k rows). \<not> raises E b r)"
    then obtain fl where
      x: "rows_loop E b lim rows s0 = Inr (fl, s)" "\<not> fl \<longrightarrow> k = length rows"
        "fl \<longrightarrow> lim \<le> count s" "\<forall>r \<in> set (take k rows). \<not> raises E b r"
      by blast
    from x(1) assms have "collect_data E b lim = Inr s"
      by (simp add: collect_data_flat rows_def s0_def)
    moreover from x(2,3) have "k < length rows \<longrightarrow> lim \<le> count s" by auto
    ultimately show ?thesis using x(4) by blast
  next
    assume "\<exists>msg. rows_loop E b lim rows s0 = Inl (ValueError msg, s)
                \<and> 0 < k \<and> raises E b (rows ! (k - 1))
                \<and> (\<forall>r \<in> set (take (k - 1) rows). \<not> raises E b r)
                \<and> count s < lim"
    then obtain msg where
      x: "rows_loop E b lim rows s0 = Inl (ValueError msg, s)" "0 < k"
        "raises E b (rows ! (k - 1))" "\<forall>r \<in> set (take (k - 1) rows). \<not> raises E b r"
        "count s < lim"
      by blast
    from x(1) assms have "collect_data E b lim = Inl (ValueError msg, s)"
      by (simp add: collect_data_flat rows_def s0_def)
    with x(2-) show ?thesis by blast
  qed
  from kl c sl dl pt st le' lst' sh' show ?thesis
    unfolding k [symmetric] rows_def by blast
qed

section \<open>RowExtractor: the claims\<close>

text \<open>
  C4. \<^verbatim>\<open>extract_creature_data\<close> returns \<open>None\<close> exactly when the row has fewer than three
  \<^verbatim>\<open>td\<close> cells below it, or the stripped text of the first cell has no digit, or no \<^verbatim>\<open>a\<close>
  element below the row carries an \<^verbatim>\<open>href\<close> attribute.
\<close>

theorem extract_creature_data_None_iff:
  "extract_creature_data uj base row = Inr None \<longleftrightarrow>
     length (filter (has_name ''td'') (descendants row)) < 3
     \<or> (\<forall>c \<in> set (get_text_strip (filter (has_name ''td'') (descendants row) ! 0)). \<not> is_digit c)
     \<or> (\<forall>n \<in> set (descendants row). \<not> (has_name ''a'' n \<and> get_attr n ''href'' \<noteq> None))"
proof -
  have a: "find_all ''td'' any_elem row = filter (has_name ''td'') (descendants row)"
    by (simp add: find_all_def any_elem_def)
  define cells where "cells = filter (has_name ''td'') (descendants row)"
  define ctext where "ctext = get_text_strip (cells ! 0)"
  note n1 = re_search_digits_None_iff [of ctext]
  note n2 = find_elem_None_iff [of "''a''" "attr_present ''href''" row]
  show ?thesis
  proof (cases "length cells < 3")
    case True
    then show ?thesis
      by (simp add: extract_creature_data_cases a cells_def)
  next
    case long: False
    show ?thesis
    proof (cases "re_search_digits ctext")
      case None
      with long n1 show ?thesis
        by (simp add: extract_creature_data_cases a cells_def [symmetric] ctext_def [symmetric])
    next
      case (Some m)
      with n1 have d: "\<not> (\<forall>c \<in> set ctext. \<not> is_digit c)" by simp
      show ?thesis
      proof (cases "find_elem ''a'' (attr_present ''href'') row")
        case None
        with long Some n2 show ?thesis
          by (simp add: extract_creature_data_cases a cells_def [symmetric]
                ctext_def [symmetric] attr_present_def)
      next
        case (Some l)
        with n2 have "\<not> (\<forall>n \<in> set (descendants row).
                        \<not> (has_name ''a'' n \<and> attr_present ''href'' n))"
          by simp
        with long d Some \<open>re_search_digits ctext = Some m\<close> show ?thesis
          by (simp add: extract_creature_data_cases a cells_def [symmetric]
                ctext_def [symmetric] attr_present_def split: sum.splits)
      qed
    qed
  qed
qed


theorem extract_creature_data_None_iff_witness:
  "extract_creature_data example_urljoin base_url header_row = Inr None
   \<and> extract_creature_data example_urljoin base_url example_row \<noteq> Inr None"
proof -
  have e: "length (filter (has_name ''td'') (descendants header_row)) < 3"
    "\<not> length (filter (has_name ''td'') (descendants example_row)) < 3"
    "\<exists>c \<in> set (get_text_strip (filter (has_name ''td'') (descendants example_row) ! 0)).
       is_digit c"
    "\<exists>n \<in> set (descendants example_row). has_name ''a'' n \<and> get_attr n ''href'' \<noteq> None"
    by code_simp+
  from extract_creature_data_None_iff [of example_urljoin base_url header_row]
    extract_creature_data_None_iff [of example_urljoin base_url example_row] e
  show ?thesis by simp
qed




section \<open>DetailExtractor: the claims\<close>



text \<open>
  C6, as the claim states it, fails on an image whose \<^verbatim>\<open>src\<close> attribute is the empty
  string: the attribute is there and does not start with \<^verbatim>\<open>//\<close>, so the claim returns it
  as it is, and the code returns \<open>None\<close> (the guard \<^verbatim>\<open>img_tag.get("src")\<close> is false on
  the empty string).
\<close>

theorem find_creature_image_counterexample:
  "empty_src_fetch ''u'' = Inr empty_src_page
   \<and> find_elem ''table'' (attr_matches ''class'' re_infobox_roundy) empty_src_page
       = Some empty_src_panel
   \<and> find_elem ''img'' any_elem empty_src_panel = Some empty_src_img
   \<and> get_attr empty_src_img ''src'' = Some []
   \<and> \<not> startswith [] ''//''
   \<and> find_creature_image_and_types empty_src_fetch ''u'' = Inr (None, [''unknown''])
   \<and> find_creature_image_and_types empty_src_fetch ''u'' \<noteq> Inr (Some [], [''unknown''])"
  by (simp add: empty_src_fetch_def empty_src_page_def empty_src_panel_def empty_src_img_def
        find_creature_image_and_types_def find_elem_def find_all_def attr_matches_def
        any_elem_def re_infobox_roundy_def startswith_def)

text \<open>
  C6, amended. In the info panel, a non-empty \<^verbatim>\<open>src\<close> of the first \<^verbatim>\<open>img\<close> element is
  returned with \<^verbatim>\<open>https:\<close> before it when it starts with \<^verbatim>\<open>//\<close>, and as it is otherwise;
  the image URL is \<open>None\<close> when the panel has no \<^verbatim>\<open>img\<close> element, or the first one has no
  \<^verbatim>\<open>src\<close> attribute or an empty one.
\<close>

theorem find_creature_image:
  "fetch u = Inr soup
   \<and> find_elem ''table'' (attr_matches ''class'' re_infobox_roundy) soup = Some panel
   \<longrightarrow>
     (\<forall>img src. find_elem ''img'' any_elem panel = Some img \<and> get_attr img ''src'' = Some src
        \<and> src \<noteq> []
        \<longrightarrow> (\<exists>tags. find_creature_image_and_types fetch u =
               Inr (Some (if \<exists>r. src = ''//'' @ r then ''https:'' @ src else src), tags)))
     \<and> ((find_elem ''img'' any_elem panel = None
          \<or> (\<exists>img. find_elem ''img'' any_elem panel = Some img
                \<and> (get_attr img ''src'' = None \<or> get_attr img ''src'' = Some [])))
        \<longrightarrow> (\<exists>tags. find_creature_image_and_types fetch u = Inr (None, tags)))"
  by (auto simp: find_creature_panel panel_image_def startswith_iff)

theorem find_creature_image_witness:
  "example_fetch ''u'' = Inr example_page
   \<and> find_elem ''table'' (attr_matches ''class'' re_infobox_roundy) example_page
       = Some example_panel
   \<and> find_elem ''img'' any_elem example_panel = Some (Elem ''img'' [(''src'', ''//example.com/a.png'')] [])
   \<and> find_creature_image_and_types example_fetch ''u''
       = Inr (Some ''https://example.com/a.png'', [''fire'', ''fire''])
   \<and> find_elem ''table'' (attr_matches ''class'' re_infobox_roundy) empty_src_page
       = Some empty_src_panel
   \<and> find_elem ''img'' any_elem empty_src_panel = Some empty_src_img
   \<and> get_attr empty_src_img ''src'' = Some []
   \<and> find_creature_image_and_types empty_src_fetch ''u'' = Inr (None, [''unknown''])"
proof -
  have e: "example_fetch ''u'' = Inr example_page"
    "find_elem ''table'' (attr_matches ''class'' re_infobox_roundy) example_page
       = Some example_panel"
    "find_elem ''img'' any_elem example_panel
       = Some (Elem ''img'' [(''src'', ''//example.com/a.png'')] [])"
    "find_creature_image_and_types example_fetch ''u''
       = Inr (Some ''https://example.com/a.png'', [''fire'', ''fire''])"
    "find_elem ''table'' (attr_matches ''class'' re_infobox_roundy) empty_src_page
       = Some empty_src_panel"
    "find_elem ''img'' any_elem empty_src_panel = Some empty_src_img"
    "get_attr empty_src_img ''src'' = Some []"
    "find_creature_image_and_types empty_src_fetch ''u'' = Inr (None, [''unknown''])"
    by code_simp+
  from find_creature_image [of example_fetch "''u''" example_page example_panel]
    find_creature_image [of empty_src_fetch "''u''" empty_src_page empty_src_panel] e
  show ?thesis by simp
qed

section \<open>ImageArchiver: the claims\<close>



text \<open>
  C9. \<^verbatim>\<open>upload_image\<close> never raises. When \<^verbatim>\<open>put_object\<close> raises \<open>NoCredentialsError\<close> it
  logs the error \<^verbatim>\<open>AWS credentials not found!\<close> and returns \<open>None\<close>; when \<^verbatim>\<open>put_object\<close>
  raises anything else it logs an error with the file name and the exception and
  returns \<open>None\<close>; it returns a URL only when \<^verbatim>\<open>put_object\<close> has succeeded.
\<close>

theorem upload_image_never_raises:
  "(\<exists>r evs. upload_image put b d f p = (Inr r, evs))
   \<and> (put (put_request_of b d f p) = Inl NoCredentialsError \<longrightarrow>
        upload_image put b d f p =
          (Inr None,
           [PutObject (put_request_of b d f p), Log ERROR ''AWS credentials not found!'']))
   \<and> (\<forall>e. put (put_request_of b d f p) = Inl e \<and> e \<noteq> NoCredentialsError \<longrightarrow>
        upload_image put b d f p =
          (Inr None,
           [PutObject (put_request_of b d f p),
            Log ERROR (''Failed to upload '' @ f @ '' to S3: '' @ exn_str e)]))
   \<and> (\<forall>u evs. upload_image put b d f p = (Inr (Some u), evs) \<longrightarrow>
        put (put_request_of b d f p) = Inr ())"
proof (cases "put (put_request_of b d f p)")
  case (Inl e)
  with upload_image_fails [of put b d f p e] show ?thesis by simp
next
  case (Inr x)
  with upload_image_ok [of put b d f p x] show ?thesis by simp
qed

theorem upload_image_never_raises_witness:
  "upload_image (\<lambda>r. Inl NoCredentialsError) ''bk'' ''data'' ''x.JPG'' ''images/fire/''
     = (Inr None,
        [PutObject (put_request_of ''bk'' ''data'' ''x.JPG'' ''images/fire/''),
         Log ERROR ''AWS credentials not found!''])
   \<and> upload_image (\<lambda>r. Inl (OtherException ''AccessDenied'')) ''bk'' ''data'' ''x.JPG''
        ''images/fire/''
     = (Inr None,
        [PutObject (put_request_of ''bk'' ''data'' ''x.JPG'' ''images/fire/''),
         Log ERROR ''Failed to upload x.JPG to S3: AccessDenied''])
   \<and> upload_image (\<lambda>r. Inr ()) ''bk'' ''data'' ''x.JPG'' ''images/fire/''
     = (Inr (Some ''https://bk.s3.amazonaws.com/images/fire/x.JPG''),
        [PutObject (put_request_of ''bk'' ''data'' ''x.JPG'' ''images/fire/'')])"
  using upload_image_never_raises [of "\<lambda>r. Inl NoCredentialsError" "''bk''" "''data''"
      "''x.JPG''" "''images/fire/''"]
    upload_image_never_raises [of "\<lambda>r. Inl (OtherException ''AccessDenied'')" "''bk''"
      "''data''" "''x.JPG''" "''images/fire/''"]
    upload_image_never_raises [of "\<lambda>r. Inr ()" "''bk''" "''data''" "''x.JPG''"
      "''images/fire/''"]
  by (simp add: upload_image_def)

section \<open>CollectionOrchestrator: the claims\<close>




text \<open>
  C2, as the claim states it, fails in three ways. With one storable row after a row
  whose upload is refused, the run with limit 1 ends with one success and has attempted
  two upload cycles (\<^const>\<open>refusing_env\<close>). With the limit \<open>-1\<close>, which any listing
  satisfies, the run ends at once with no success. With a row whose \<^verbatim>\<open>href\<close> is rejected
  by \<^verbatim>\<open>urljoin\<close> before the storable row, the run with limit 1 is ended by \<^verbatim>\<open>ValueError\<close>
  with no success (\<^const>\<open>bracket_env\<close>).
\<close>

theorem collect_data_limit_counterexample:
  "fetch_page refusing_env list_url = Inr example_listing
   \<and> map (row_outcome refusing_env ''bk'') (selected_rows example_listing)
       = [NoEntity, UploadFailed, Uploaded]
   \<and> run_summary refusing_env ''bk'' 1 = (None, 1, 3, 2, 2, 2)
   \<and> fetch_page example_env list_url = Inr example_listing
   \<and> map (row_outcome example_env ''bk'') (selected_rows example_listing)
       = [NoEntity, Uploaded, NoImage]
   \<and> run_summary example_env ''bk'' (- 1) = (None, 0, 0, 0, 0, 0)
   \<and> fetch_page bracket_env list_url = Inr bracket_listing
   \<and> map (row_outcome bracket_env ''bk'') (selected_rows bracket_listing) = [Raises, Uploaded]
   \<and> run_summary bracket_env ''bk'' 1
       = (Some (ValueError ''Invalid IPv6 URL''), 0, 1, 0, 0, 0)"
  by code_simp

text \<open>
  C2, amended. For a limit that is not negative and a listing whose selected tables,
  taken together in order, hold at least that many stored rows (entity, image URL,
  download and upload all succeeding) before any row on which \<^verbatim>\<open>int\<close>, \<^verbatim>\<open>urljoin\<close> or
  \<^verbatim>\<open>urlparse\<close> raises: the run returns with exactly \<open>limit\<close> successes, all of them among
  the rows visited; when the limit is positive the last row visited is the one whose
  upload reached it, so that no row is touched after it, in this table or in a later one.
  The downloads attempted are \<open>limit\<close> and one more for every visited row whose download
  or upload failed; the puts attempted are \<open>limit\<close> and one more for every visited row
  whose upload failed.
\<close>

theorem collect_data_limit:
  "fetch_page E list_url = Inr soup \<and> 0 \<le> lim
   \<and> lim \<le> int (length (filter (uploaded E b)
                            (takeWhile (\<lambda>r. \<not> raises E b r) (selected_rows soup))))
   \<longrightarrow>
     (\<exists>s. collect_data E b lim = Inr s
        \<and> count s = lim
        \<and> stored E (trace s) = nat lim
        \<and> visited s \<le> length (selected_rows soup)
        \<and> count s = int (length (filter (uploaded E b) (take (visited s) (selected_rows soup))))
        \<and> (0 < lim \<longrightarrow> 0 < visited s \<and> uploaded E b (selected_rows soup ! (visited s - 1)))
        \<and> downloads (trace s) =
            nat lim + length (filter (cycle_failed E b) (take (visited s) (selected_rows soup)))
        \<and> puts (trace s) =
            nat lim + length (filter (upload_failed E b) (take (visited s) (selected_rows soup))))"
proof
  assume h: "fetch_page E list_url = Inr soup \<and> 0 \<le> lim
   \<and> lim \<le> int (length (filter (uploaded E b)
                            (takeWhile (\<lambda>r. \<not> raises E b r) (selected_rows soup))))"
  define rows where "rows = selected_rows soup"
  from h have f: "fetch_page E list_url = Inr soup" and l0: "0 \<le> lim" and
    en: "lim \<le> int (length (filter (uploaded E b) (takeWhile (\<lambda>r. \<not> raises E b r) rows)))"
    by (simp_all add: rows_def)
  from run_effect [OF f, of b lim] obtain s where
    k: "visited s \<le> length rows" and
    c: "count s = int (length (filter (uploaded E b) (take (visited s) rows)))" and
    d: "downloads (trace s) = length (filter (reaches_download E b) (take (visited s) rows))" and
    p: "puts (trace s) = length (filter (reaches_put E b) (take (visited s) rows))" and
    st: "stored E (trace s) = length (filter (uploaded E b) (take (visited s) rows))" and
    le: "0 \<le> lim \<longrightarrow> count s \<le> lim" and
    lst: "0 < lim \<and> count s = lim \<longrightarrow> 0 < visited s \<and> uploaded E b (rows ! (visited s - 1))" and
    sh: "(collect_data E b lim = Inr s
           \<and> (visited s < length rows \<longrightarrow> lim \<le> count s)
           \<and> (\<forall>r \<in> set (take (visited s) rows). \<not> raises E b r))
          \<or> (\<exists>msg. collect_data E b lim = Inl (ValueError msg, s)
                \<and> 0 < visited s \<and> raises E b (rows ! (visited s - 1))
                \<and> (\<forall>r \<in> set (take (visited s - 1) rows). \<not> raises E b r)
                \<and> count s < lim)"
    unfolding rows_def by blast
  have no_exn: "\<not> (0 < visited s \<and> raises E b (rows ! (visited s - 1))
                \<and> (\<forall>r \<in> set (take (visited s - 1) rows). \<not> raises E b r)
                \<and> count s < lim)"
  proof
    assume x: "0 < visited s \<and> raises E b (rows ! (visited s - 1))
                \<and> (\<forall>r \<in> set (take (visited s - 1) rows). \<not> raises E b r)
                \<and> count s < lim"
    define n where "n = visited s - 1"
    from x have vp: "0 < visited s" by blast
    with k have n: "n < length rows" "visited s = Suc n" unfolding n_def by arith+
    from x have rn: "raises E b (rows ! n)" and
      pre: "\<forall>r \<in> set (take n rows). \<not> raises E b r" by (simp_all add: n_def)
    have tw: "takeWhile (\<lambda>r. \<not> raises E b r) rows = take n rows"
    proof (rule takeWhile_eq_take_P_nth)
      fix i assume "i < n" "i < length rows"
      then have "rows ! i \<in> set (take n rows)"
        by (auto simp: in_set_conv_nth intro!: exI [of _ i])
      with pre show "\<not> raises E b (rows ! i)" by blast
    next
      show "\<not> \<not> raises E b (rows ! n)" using rn by simp
    qed
    from rn have "\<not> uploaded E b (rows ! n)" by (simp add: raises_excludes)
    with c n have "count s = int (length (filter (uploaded E b) (take n rows)))"
      by (simp add: take_Suc_conv_app_nth)
    with en tw x show False by simp
  qed
  with sh have cd: "collect_data E b lim = Inr s" and
    fin: "visited s < length rows \<longrightarrow> lim \<le> count s" and
    nr: "\<forall>r \<in> set (take (visited s) rows). \<not> raises E b r"
    by blast+
  have eq: "count s = lim"
  proof (cases "visited s < length rows")
    case True
    with fin le l0 show ?thesis by simp
  next
    case False
    with k have all: "take (visited s) rows = rows" by simp
    with nr have "takeWhile (\<lambda>r. \<not> raises E b r) rows = rows"
      by (simp add: takeWhile_eq_all_conv)
    with en c all le l0 show ?thesis by simp
  qed
  from c eq have u: "length (filter (uploaded E b) (take (visited s) rows)) = nat lim"
    by simp
  have dn: "downloads (trace s) =
              nat lim + length (filter (cycle_failed E b) (take (visited s) rows))"
    by (simp add: d count_reaches_download u)
  have pn: "puts (trace s) =
              nat lim + length (filter (upload_failed E b) (take (visited s) rows))"
    by (simp add: p count_reaches_put u)
  from st u have sn: "stored E (trace s) = nat lim" by simp
  from lst eq have ls: "0 < lim \<longrightarrow> 0 < visited s \<and> uploaded E b (rows ! (visited s - 1))"
    by simp
  from cd eq sn k c ls dn pn show "\<exists>s. collect_data E b lim = Inr s
        \<and> count s = lim
        \<and> stored E (trace s) = nat lim
        \<and> visited s \<le> length (selected_rows soup)
        \<and> count s = int (length (filter (uploaded E b) (take (visited s) (selected_rows soup))))
        \<and> (0 < lim \<longrightarrow> 0 < visited s \<and> uploaded E b (selected_rows soup ! (visited s - 1)))
        \<and> downloads (trace s) =
            nat lim + length (filter (cycle_failed E b) (take (visited s) (selected_rows soup)))
        \<and> puts (trace s) =
            nat lim + length (filter (upload_failed E b) (take (visited s) (selected_rows soup)))"
    unfolding rows_def by blast
qed

theorem collect_data_limit_witness:
  "fetch_page five_env list_url = Inr five_listing
   \<and> map (row_outcome five_env ''bk'') (selected_rows five_listing)
       = [Uploaded, Uploaded, Uploaded, Uploaded, Uploaded]
   \<and> run_summary five_env ''bk'' 2 = (None, 2, 2, 2, 2, 2)
   \<and> run_summary five_env ''bk'' 4 = (None, 4, 4, 4, 4, 4)
   \<and> fetch_page refusing_env list_url = Inr example_listing
   \<and> map (row_outcome refusing_env ''bk'') (selected_rows example_listing)
       = [NoEntity, UploadFailed, Uploaded]
   \<and> run_summary refusing_env ''bk'' 1 = (None, 1, 3, 2, 2, 2)
   \<and> fetch_page late_refusal_env list_url = Inr late_refusal_listing
   \<and> map (row_outcome late_refusal_env ''bk'') (selected_rows late_refusal_listing)
       = [Uploaded, UploadFailed]
   \<and> run_summary late_refusal_env ''bk'' 1 = (None, 1, 1, 1, 1, 1)"
proof -
  have e: "fetch_page five_env list_url = Inr five_listing"
    "map (row_outcome five_env ''bk'') (selected_rows five_listing)
       = [Uploaded, Uploaded, Uploaded, Uploaded, Uploaded]"
    "run_summary five_env ''bk'' 2 = (None, 2, 2, 2, 2, 2)"
    "run_summary five_env ''bk'' 4 = (None, 4, 4, 4, 4, 4)"
    "fetch_page refusing_env list_url = Inr example_listing"
    "map (row_outcome refusing_env ''bk'') (selected_rows example_listing)
       = [NoEntity, UploadFailed, Uploaded]"
    "run_summary refusing_env ''bk'' 1 = (None, 1, 3, 2, 2, 2)"
    "fetch_page late_refusal_env list_url = Inr late_refusal_listing"
    "map (row_outcome late_refusal_env ''bk'') (selected_rows late_refusal_listing)
       = [Uploaded, UploadFailed]"
    "run_summary late_refusal_env ''bk'' 1 = (None, 1, 1, 1, 1, 1)"
    by code_simp+
  from collect_data_limit [of five_env five_listing 2 "''bk''"]
    collect_data_limit [of five_env five_listing 4 "''bk''"]
    collect_data_limit [of refusing_env example_listing 1 "''bk''"]
    collect_data_limit [of late_refusal_env late_refusal_listing 1 "''bk''"] e
  show ?thesis by simp
qed

text \<open>
  C3. When the fetch of a detail page raises, \<^verbatim>\<open>find_creature_image_and_types\<close> returns
  \<^verbatim>\<open>(None, ["unknown"])\<close> and raises nothing. In the loop, a row whose entity's detail page
  cannot be fetched gets the progress line, the page request and the warning
  \<^verbatim>\<open>No image found for {name}\<close>; the count stays as it was and the loop goes on with the
  rows that follow.
\<close>

theorem detail_fetch_failure_absorbed:
  "(fetch u = Inl e \<longrightarrow> find_creature_image_and_types fetch u = Inr (None, [''unknown'']))
   \<and> (extract_creature_data (urljoin E) base_url row = Inr (Some c)
        \<and> fetch_page E (url c) = Inl e' \<and> count s < lim
      \<longrightarrow> (\<exists>s'. row_body E b row (s\<lparr>visited := Suc (visited s)\<rparr>) = Inr s'
             \<and> trace s' = trace s @ [Log INFO (''Processing #'' @ format_04d (index c) @ '' ''
                                                @ name c),
                                      PageGet (url c),
                                      Log WARNING (''No image found for '' @ name c)]
             \<and> count s' = count s
             \<and> rows_loop E b lim (row # rows) s = rows_loop E b lim rows s'))"
proof (intro conjI impI)
  assume "fetch u = Inl e"
  then show "find_creature_image_and_types fetch u = Inr (None, [''unknown''])"
    by (rule find_creature_fetch_fails)
next
  assume h: "extract_creature_data (urljoin E) base_url row = Inr (Some c)
        \<and> fetch_page E (url c) = Inl e' \<and> count s < lim"
  then have f: "find_creature_image_and_types (fetch_page E) (url c) = Inr (None, [''unknown''])"
    by (simp add: find_creature_fetch_fails)
  define s' where "s' = emit [Log WARNING (''No image found for '' @ name c)]
     (emit [Log INFO (''Processing #'' @ format_04d (index c) @ '' '' @ name c),
            PageGet (url c)] (s\<lparr>visited := Suc (visited s)\<rparr>))"
  from h f have r: "row_body E b row (s\<lparr>visited := Suc (visited s)\<rparr>) = Inr s'"
    by (simp add: row_body_def s'_def)
  have t: "trace s' = trace s @ [Log INFO (''Processing #'' @ format_04d (index c) @ '' ''
                                                @ name c),
                                      PageGet (url c),
                                      Log WARNING (''No image found for '' @ name c)]"
    and c: "count s' = count s"
    by (simp_all add: s'_def)
  from h r have l: "rows_loop E b lim (row # rows) s = rows_loop E b lim rows s'"
    by simp
  from r t c l show "\<exists>s'. row_body E b row (s\<lparr>visited := Suc (visited s)\<rparr>) = Inr s'
             \<and> trace s' = trace s @ [Log INFO (''Processing #'' @ format_04d (index c) @ '' ''
                                                @ name c),
                                      PageGet (url c),
                                      Log WARNING (''No image found for '' @ name c)]
             \<and> count s' = count s
             \<and> rows_loop E b lim (row # rows) s = rows_loop E b lim rows s'"
    by blast
qed

theorem detail_fetch_failure_absorbed_witness:
  "extract_creature_data (urljoin down_env) base_url example_row =
     Inr (Some \<lparr>index = 4, name = ''Foo'', url = base_url @ ''/wiki/Foo'',
                types = None, image_url = None\<rparr>)
   \<and> fetch_page down_env (base_url @ ''/wiki/Foo'') = Inl (OtherException ''503 Server Error'')
   \<and> find_creature_image_and_types (fetch_page down_env) (base_url @ ''/wiki/Foo'')
       = Inr (None, [''unknown''])
   \<and> rows_loop down_env ''bk'' 1 [example_row] init_state =
       Inr (False, \<lparr>count = 0,
                    trace = [Log INFO ''Processing #0004 Foo'',
                             PageGet (base_url @ ''/wiki/Foo''),
                             Log WARNING ''No image found for Foo''],
                    visited = 1\<rparr>)"
proof -
  have e: "extract_creature_data (urljoin down_env) base_url example_row =
     Inr (Some \<lparr>index = 4, name = ''Foo'', url = base_url @ ''/wiki/Foo'',
                types = None, image_url = None\<rparr>)"
    "fetch_page down_env (base_url @ ''/wiki/Foo'') = Inl (OtherException ''503 Server Error'')"
    "find_creature_image_and_types (fetch_page down_env) (base_url @ ''/wiki/Foo'')
       = Inr (None, [''unknown''])"
    "rows_loop down_env ''bk'' 1 [example_row] init_state =
       Inr (False, \<lparr>count = 0,
                    trace = [Log INFO ''Processing #0004 Foo'',
                             PageGet (base_url @ ''/wiki/Foo''),
                             Log WARNING ''No image found for Foo''],
                    visited = 1\<rparr>)"
    by code_simp+
  from detail_fetch_failure_absorbed [of "fetch_page down_env" "base_url @ ''/wiki/Foo''"
      "OtherException ''503 Server Error''" down_env example_row
      "\<lparr>index = 4, name = ''Foo'', url = base_url @ ''/wiki/Foo'', types = None,
        image_url = None\<rparr>" "OtherException ''503 Server Error''" init_state 1 "''bk''" "[]"] e
  show ?thesis by simp
qed

text \<open>
  C10. Whenever \<^verbatim>\<open>find_creature_image_and_types\<close> returns an image URL, the tags it
  returns are not empty; the empty list of tags comes only with no image URL, from a page
  without an info panel. So \<^verbatim>\<open>types[0]\<close> in the loop body never raises \<open>IndexError\<close>.
\<close>

theorem tags_nonempty_with_image:
  "(find_creature_image_and_types fetch u = Inr (Some i, tags) \<longrightarrow> tags \<noteq> [])
   \<and> (find_creature_image_and_types fetch u = Inr (img, []) \<longrightarrow>
        img = None
        \<and> (\<exists>soup. fetch u = Inr soup
              \<and> find_elem ''table'' (attr_matches ''class'' re_infobox_roundy) soup = None))
   \<and> (\<forall>s'. row_body E b row s \<noteq> Inl (IndexError, s'))"
proof (intro conjI impI allI)
  assume "find_creature_image_and_types fetch u = Inr (Some i, tags)"
  from find_creature_image_tags [OF this] show "tags \<noteq> []" by simp
next
  assume a: "find_creature_image_and_types fetch u = Inr (img, [])"
  from find_creature_empty_tags [OF a] show "img = None" by simp
  from find_creature_empty_tags [OF a]
  show "\<exists>soup. fetch u = Inr soup
              \<and> find_elem ''table'' (attr_matches ''class'' re_infobox_roundy) soup = None"
    by simp
next
  fix s'
  show "row_body E b row s \<noteq> Inl (IndexError, s')"
  proof
    assume "row_body E b row s = Inl (IndexError, s')"
    from row_body_exn [OF this] show False by simp
  qed
qed

theorem tags_nonempty_with_image_witness:
  "find_creature_image_and_types example_fetch ''u''
     = Inr (Some ''https://example.com/a.png'', [''fire'', ''fire''])
   \<and> find_creature_image_and_types plain_fetch ''u'' = Inr (None, [])
   \<and> plain_fetch ''u'' = Inr plain_page
   \<and> find_elem ''table'' (attr_matches ''class'' re_infobox_roundy) plain_page = None
   \<and> summary (final_state (row_body example_env ''bk'' example_row init_state))
       = (1, 0, 1, 1, 1)
   \<and> row_body bracket_env ''bk'' bracket_row init_state
       = Inl (ValueError ''Invalid IPv6 URL'', init_state)"
proof -
  have e: "find_creature_image_and_types example_fetch ''u''
     = Inr (Some ''https://example.com/a.png'', [''fire'', ''fire''])"
    "find_creature_image_and_types plain_fetch ''u'' = Inr (None, [])"
    "summary (final_state (row_body example_env ''bk'' example_row init_state))
       = (1, 0, 1, 1, 1)"
    "row_body bracket_env ''bk'' bracket_row init_state
       = Inl (ValueError ''Invalid IPv6 URL'', init_state)"
    by code_simp+
  from tags_nonempty_with_image [of example_fetch "''u''" "''https://example.com/a.png''"
      "[''fire'', ''fire'']" None example_env "''bk''" example_row init_state]
    tags_nonempty_with_image [of plain_fetch "''u''"
      "''https://example.com/a.png''" "[''fire'', ''fire'']" None bracket_env "''bk''"
      bracket_row init_state]
    e
  show ?thesis by (simp add: plain_fetch_def)
qed

end
